theory Spec2Isabelle
  imports Main "HOL-Library.Multiset" "HOL-Library.Sublist" "HOL-Library.AList"
begin

section \<open>JavaScript values held by the application\<close>

text \<open>
  Every book the application holds comes from \<^verbatim>\<open>JSON.parse\<close> (stored collection, imported
  document), from the seed constant, or from the object literal built in
  \<^verbatim>\<open>handleFormSubmit\<close>; all of them are JSON values. Numbers are modelled as integers
  (the form stores \<^verbatim>\<open>parseInt(..) || null\<close>); fractions, non-finite doubles and integers
  beyond the exact range of a double are outside the model. An object is the list of its
  own properties in insertion order. \<^verbatim>\<open>undefined\<close>, the value of a missing property, is
  \<open>None\<close> of type \<open>jsval\<close>.
\<close>

datatype json =
    JNull
  | JBool bool
  | JNum int
  | JStr string
  | JArr "json list"
  | JObj "(string \<times> json) list"

type_synonym jsval = "json option"

datatype error = TypeError

definition bindE :: "error + 'a \<Rightarrow> ('a \<Rightarrow> error + 'b) \<Rightarrow> error + 'b" where
  "bindE m f = (case m of Inl e \<Rightarrow> Inl e | Inr x \<Rightarrow> f x)"

text \<open>
  Property read \<^verbatim>\<open>v.k\<close> for an identifier \<open>k\<close> that is no prototype member (the
  application reads \<^verbatim>\<open>id\<close>, \<^verbatim>\<open>title\<close>, \<^verbatim>\<open>status\<close>, ... and \<^verbatim>\<open>length\<close>): it throws on
  \<^verbatim>\<open>null\<close> and \<^verbatim>\<open>undefined\<close>, finds an own property of an object, the length of an array
  or string, and is \<^verbatim>\<open>undefined\<close> otherwise.
\<close>

fun getProp :: "jsval \<Rightarrow> string \<Rightarrow> error + jsval" where
  "getProp None k = Inl TypeError"
| "getProp (Some JNull) k = Inl TypeError"
| "getProp (Some (JObj kvs)) k = Inr (map_of kvs k)"
| "getProp (Some (JArr xs)) k =
     Inr (if k = ''length'' then Some (JNum (int (length xs))) else None)"
| "getProp (Some (JStr s)) k =
     Inr (if k = ''length'' then Some (JNum (int (length s))) else None)"
| "getProp (Some (JBool b)) k = Inr None"
| "getProp (Some (JNum n)) k = Inr None"

text \<open>ToBoolean.\<close>

fun truthy :: "jsval \<Rightarrow> bool" where
  "truthy None = False"
| "truthy (Some JNull) = False"
| "truthy (Some (JBool b)) = b"
| "truthy (Some (JNum n)) = (n \<noteq> 0)"
| "truthy (Some (JStr s)) = (s \<noteq> [])"
| "truthy (Some (JArr xs)) = True"
| "truthy (Some (JObj kvs)) = True"

text \<open>\<^verbatim>\<open>v === 'literal'\<close>: strict equality with a string.\<close>

definition eqStr :: "jsval \<Rightarrow> string \<Rightarrow> bool" where
  "eqStr v s = (v = Some (JStr s))"

text \<open>\<^verbatim>\<open>xs.filter(p)\<close> with a callback that may throw: elements are visited left to right.\<close>

fun filterE :: "('a \<Rightarrow> error + bool) \<Rightarrow> 'a list \<Rightarrow> error + 'a list" where
  "filterE p [] = Inr []"
| "filterE p (x # xs) =
     bindE (p x) (\<lambda>keep. bindE (filterE p xs) (\<lambda>ys. Inr (if keep then x # ys else ys)))"

section \<open>Bucketing in \<^verbatim>\<open>renderAll\<close>\<close>

text \<open>
  \<^verbatim>\<open>b => b.favorite && b.status === 'finished'\<close>, \<^verbatim>\<open>b => b.status === 'reading'\<close>, ...,
  \<^verbatim>\<open>b => b.status === 'finished' && !b.favorite\<close>; each returns the truthiness that
  \<^verbatim>\<open>filter\<close> sees.
\<close>

definition isFavorite :: "json \<Rightarrow> error + bool" where
  "isFavorite b =
     bindE (getProp (Some b) ''favorite'') (\<lambda>fav.
       if truthy fav then bindE (getProp (Some b) ''status'') (\<lambda>st. Inr (eqStr st ''finished''))
       else Inr False)"

definition hasStatus :: "string \<Rightarrow> json \<Rightarrow> error + bool" where
  "hasStatus s b = bindE (getProp (Some b) ''status'') (\<lambda>st. Inr (eqStr st s))"

definition isCompleted :: "json \<Rightarrow> error + bool" where
  "isCompleted b =
     bindE (getProp (Some b) ''status'') (\<lambda>st.
       if eqStr st ''finished'' then bindE (getProp (Some b) ''favorite'') (\<lambda>fav. Inr (\<not> truthy fav))
       else Inr False)"

text \<open>The six predicates in the order \<^verbatim>\<open>renderAll\<close> applies them.\<close>

definition bucketPredicates :: "(json \<Rightarrow> error + bool) list" where
  "bucketPredicates =
     [isFavorite, hasStatus ''reading'', hasStatus ''up-next'', hasStatus ''wishlist'',
      hasStatus ''on-hold'', isCompleted]"

record sections =
  favorites :: "json list"
  reading :: "json list"
  owned :: "json list"
  wantToBuy :: "json list"
  paused :: "json list"
  completed :: "json list"

definition renderAll_sections :: "json list \<Rightarrow> error + sections" where
  "renderAll_sections filtered =
     bindE (filterE isFavorite filtered) (\<lambda>fa.
     bindE (filterE (hasStatus ''reading'') filtered) (\<lambda>re.
     bindE (filterE (hasStatus ''up-next'') filtered) (\<lambda>ow.
     bindE (filterE (hasStatus ''wishlist'') filtered) (\<lambda>wa.
     bindE (filterE (hasStatus ''on-hold'') filtered) (\<lambda>pa.
     bindE (filterE isCompleted filtered) (\<lambda>co.
       Inr \<lparr>favorites = fa, reading = re, owned = ow, wantToBuy = wa,
            paused = pa, completed = co\<rparr>))))))"

text \<open>A book as the data model describes it for bucketing: an object whose status is one of
  the five values and whose favorite flag is a boolean.\<close>

definition statuses :: "string list" where
  "statuses = [''wishlist'', ''up-next'', ''reading'', ''on-hold'', ''finished'']"

definition bucketable :: "json \<Rightarrow> bool" where
  "bucketable b =
     (case b of
        JObj kvs \<Rightarrow>
          (case map_of kvs ''status'' of
             Some (JStr s) \<Rightarrow> s \<in> set statuses
           | _ \<Rightarrow> False) \<and>
          (case map_of kvs ''favorite'' of Some (JBool f) \<Rightarrow> True | _ \<Rightarrow> False)
      | _ \<Rightarrow> False)"

text \<open>The truth of each predicate on a book for which it returns.\<close>

definition inFavorite :: "json \<Rightarrow> bool" where
  "inFavorite b = (isFavorite b = Inr True)"

definition inStatus :: "string \<Rightarrow> json \<Rightarrow> bool" where
  "inStatus s b = (hasStatus s b = Inr True)"

definition inCompleted :: "json \<Rightarrow> bool" where
  "inCompleted b = (isCompleted b = Inr True)"

section \<open>Platform functions\<close>

text \<open>
  The functions below belong to the browser, not to the repository; the model takes them
  as parameters and the theorems hold for every choice of them, under the hypotheses they
  state. \<open>JSON_parse\<close> is \<open>None\<close> where \<^verbatim>\<open>JSON.parse\<close> throws; \<open>JSON_stringify_pretty\<close>
  is \<^verbatim>\<open>JSON.stringify(v, null, 2)\<close>; \<open>parseInt\<close> and \<open>stringToNumber\<close> are \<open>None\<close> for
  \<^verbatim>\<open>NaN\<close>; \<open>encodeURIComponent\<close> is \<open>None\<close> where it throws.
\<close>

record platform =
  JSON_parse :: "string \<Rightarrow> json option"
  JSON_stringify :: "json \<Rightarrow> string"
  JSON_stringify_pretty :: "json \<Rightarrow> string"
  toLowerCase :: "string \<Rightarrow> string"
  trim :: "string \<Rightarrow> string"
  localeCompare :: "string \<Rightarrow> string \<Rightarrow> int"
  parseInt :: "string \<Rightarrow> int option"
  stringToNumber :: "string \<Rightarrow> int option"
  encodeURIComponent :: "string \<Rightarrow> string option"

section \<open>Conversions\<close>

function showNat :: "nat \<Rightarrow> string" where
  "showNat n =
     (if n < 10 then [''0123456789'' ! n]
      else showNat (n div 10) @ [''0123456789'' ! (n mod 10)])"
  by pat_completeness auto
termination
  by (relation "measure id") auto

declare showNat.simps [simp del]

definition showInt :: "int \<Rightarrow> string" where
  "showInt i = (if i < 0 then CHR ''-'' # showNat (nat (- i)) else showNat (nat i))"

fun joinWith :: "string \<Rightarrow> string list \<Rightarrow> string" where
  "joinWith sep [] = []"
| "joinWith sep [x] = x"
| "joinWith sep (x # y # ys) = x @ sep @ joinWith sep (y # ys)"

text \<open>ToString, as a template literal or a string method applies it to its argument: an
  array joins its elements with commas (\<^verbatim>\<open>null\<close> as the empty string), a plain object is
  \<^verbatim>\<open>[object Object]\<close>.\<close>

fun jsonToString :: "json \<Rightarrow> string" where
  "jsonToString JNull = ''null''"
| "jsonToString (JBool b) = (if b then ''true'' else ''false'')"
| "jsonToString (JNum n) = showInt n"
| "jsonToString (JStr s) = s"
| "jsonToString (JArr xs) =
     joinWith '','' (map (\<lambda>x. if x = JNull then [] else jsonToString x) xs)"
| "jsonToString (JObj kvs) = ''[object Object]''"

definition toString :: "jsval \<Rightarrow> string" where
  "toString v = (case v of None \<Rightarrow> ''undefined'' | Some j \<Rightarrow> jsonToString j)"

text \<open>ToNumber; \<open>None\<close> is \<^verbatim>\<open>NaN\<close>.\<close>

definition toNumber :: "platform \<Rightarrow> jsval \<Rightarrow> int option" where
  "toNumber P v =
     (case v of
        None \<Rightarrow> None
      | Some JNull \<Rightarrow> Some 0
      | Some (JBool b) \<Rightarrow> Some (if b then 1 else 0)
      | Some (JNum n) \<Rightarrow> Some n
      | Some (JStr s) \<Rightarrow> stringToNumber P s
      | Some j \<Rightarrow> stringToNumber P (jsonToString j))"

text \<open>\<^verbatim>\<open>a || b\<close>.\<close>

definition orElse :: "jsval \<Rightarrow> jsval \<Rightarrow> jsval" where
  "orElse a b = (if truthy a then a else b)"

text \<open>The value of \<^verbatim>\<open>b.k\<close> where the read returns: \<^verbatim>\<open>undefined\<close> unless \<open>b\<close> is an object
  with that property.\<close>

definition field :: "json \<Rightarrow> string \<Rightarrow> jsval" where
  "field b k = (case b of JObj kvs \<Rightarrow> map_of kvs k | _ \<Rightarrow> None)"

section \<open>Filtering and sorting: \<^verbatim>\<open>getFilteredBooks\<close>\<close>

record filterState =
  genre :: string
  status :: string
  format :: string
  rating :: string
  sortBy :: string

text \<open>\<^verbatim>\<open>v.toLowerCase().includes(query)\<close>: a method call on anything but a string throws.\<close>

definition lowerIncludes :: "platform \<Rightarrow> jsval \<Rightarrow> string \<Rightarrow> error + bool" where
  "lowerIncludes P v q =
     (case v of Some (JStr s) \<Rightarrow> Inr (sublist q (toLowerCase P s)) | _ \<Rightarrow> Inl TypeError)"

text \<open>\<^verbatim>\<open>if (want && book.key !== want) return false\<close>: whether the book passes this line.\<close>

definition passesExact :: "string \<Rightarrow> string \<Rightarrow> json \<Rightarrow> error + bool" where
  "passesExact want key book =
     (if want \<noteq> [] then bindE (getProp (Some book) key) (\<lambda>v. Inr (eqStr v want))
      else Inr True)"

text \<open>The first line of the callback: the title is tried first, the author only if the
  title does not contain the query.\<close>

definition passesQuery :: "platform \<Rightarrow> string \<Rightarrow> json \<Rightarrow> error + bool" where
  "passesQuery P query book =
     (if query \<noteq> [] then
        bindE (getProp (Some book) ''title'') (\<lambda>t.
        bindE (lowerIncludes P t query) (\<lambda>inTitle.
          if inTitle then Inr True
          else bindE (getProp (Some book) ''author'') (\<lambda>a. lowerIncludes P a query)))
      else Inr True)"

text \<open>The two rating lines: \<^verbatim>\<open>rating === 'none' && book.rating != null\<close> and
  \<^verbatim>\<open>rating && rating !== 'none' && book.rating !== parseInt(rating)\<close>.\<close>

definition passesRatingNone :: "string \<Rightarrow> json \<Rightarrow> error + bool" where
  "passesRatingNone r book =
     (if r = ''none'' then
        bindE (getProp (Some book) ''rating'') (\<lambda>v. Inr (v = None \<or> v = Some JNull))
      else Inr True)"

definition passesRatingValue :: "platform \<Rightarrow> string \<Rightarrow> json \<Rightarrow> error + bool" where
  "passesRatingValue P r book =
     (if r \<noteq> [] \<and> r \<noteq> ''none'' then
        bindE (getProp (Some book) ''rating'') (\<lambda>v.
          Inr (case parseInt P r of None \<Rightarrow> False | Some n \<Rightarrow> v = Some (JNum n)))
      else Inr True)"

text \<open>The callback of \<^verbatim>\<open>books.filter\<close>: six lines, each returning \<^verbatim>\<open>false\<close> early.\<close>

definition matchesFilter :: "platform \<Rightarrow> string \<Rightarrow> filterState \<Rightarrow> json \<Rightarrow> error + bool" where
  "matchesFilter P query fs book =
     bindE (passesQuery P query book) (\<lambda>ok. if \<not> ok then Inr False else
     bindE (passesExact (genre fs) ''genre'' book) (\<lambda>ok. if \<not> ok then Inr False else
     bindE (passesExact (status fs) ''status'' book) (\<lambda>ok. if \<not> ok then Inr False else
     bindE (passesExact (format fs) ''format'' book) (\<lambda>ok. if \<not> ok then Inr False else
     bindE (passesRatingNone (rating fs) book) (\<lambda>ok. if \<not> ok then Inr False else
     passesRatingValue P (rating fs) book)))))"

text \<open>\<^verbatim>\<open>recv.localeCompare(arg)\<close>: the receiver must be a string, the argument is converted
  to one.\<close>

definition callLocaleCompare :: "platform \<Rightarrow> jsval \<Rightarrow> jsval \<Rightarrow> error + int option" where
  "callLocaleCompare P recv arg =
     (case recv of
        Some (JStr s) \<Rightarrow> Inr (Some (localeCompare P s (toString arg)))
      | _ \<Rightarrow> Inl TypeError)"

text \<open>\<^verbatim>\<open>x - y\<close> on numbers; \<^verbatim>\<open>NaN\<close> if either side is.\<close>

definition numMinus :: "int option \<Rightarrow> int option \<Rightarrow> int option" where
  "numMinus x y = (case (x, y) of (Some a, Some b) \<Rightarrow> Some (a - b) | _ \<Rightarrow> None)"

text \<open>The comparator of \<^verbatim>\<open>result.sort\<close>, one branch per \<^verbatim>\<open>case\<close> of the switch.\<close>

definition compareBooks :: "platform \<Rightarrow> string \<Rightarrow> json \<Rightarrow> json \<Rightarrow> error + int option" where
  "compareBooks P key a b =
     (if key = ''title'' then
        bindE (getProp (Some a) ''title'') (\<lambda>ta.
        bindE (getProp (Some b) ''title'') (\<lambda>tb. callLocaleCompare P ta tb))
      else if key = ''author'' then
        bindE (getProp (Some a) ''author'') (\<lambda>ta.
        bindE (getProp (Some b) ''author'') (\<lambda>tb. callLocaleCompare P ta tb))
      else if key = ''rating'' then
        bindE (getProp (Some b) ''rating'') (\<lambda>rb.
        bindE (getProp (Some a) ''rating'') (\<lambda>ra.
          Inr (numMinus (toNumber P (orElse rb (Some (JNum 0))))
                        (toNumber P (orElse ra (Some (JNum 0)))))))
      else if key = ''yearPublished'' then
        bindE (getProp (Some b) ''yearPublished'') (\<lambda>yb.
        bindE (getProp (Some a) ''yearPublished'') (\<lambda>ya.
          Inr (numMinus (toNumber P (orElse yb (Some (JNum 0))))
                        (toNumber P (orElse ya (Some (JNum 0)))))))
      else
        bindE (getProp (Some b) ''dateAdded'') (\<lambda>db.
        bindE (getProp (Some a) ''dateAdded'') (\<lambda>da.
          callLocaleCompare P (orElse db (Some (JStr []))) (orElse da (Some (JStr []))))))"

text \<open>
  \<^verbatim>\<open>Array.prototype.sort\<close> with a comparator. The language requires the sort to be stable,
  and for a consistent comparator that does not throw it fixes the result: the stable
  arrangement in comparator order, which insertion from the right computes. A comparator
  result that is \<^verbatim>\<open>NaN\<close> counts as 0. Where the comparator throws or is inconsistent the
  result depends on the engine; the model then follows the calls of the insertion.
\<close>

definition notAfter :: "int option \<Rightarrow> bool" where
  "notAfter c = (case c of None \<Rightarrow> True | Some n \<Rightarrow> n \<le> 0)"

fun insertBy :: "('a \<Rightarrow> 'a \<Rightarrow> error + int option) \<Rightarrow> 'a \<Rightarrow> 'a list \<Rightarrow> error + 'a list" where
  "insertBy cmp x [] = Inr [x]"
| "insertBy cmp x (y # ys) =
     bindE (cmp x y) (\<lambda>c.
       if notAfter c then Inr (x # y # ys)
       else bindE (insertBy cmp x ys) (\<lambda>zs. Inr (y # zs)))"

fun js_sort :: "('a \<Rightarrow> 'a \<Rightarrow> error + int option) \<Rightarrow> 'a list \<Rightarrow> error + 'a list" where
  "js_sort cmp [] = Inr []"
| "js_sort cmp (x # xs) = bindE (js_sort cmp xs) (insertBy cmp x)"

definition sortBooks :: "platform \<Rightarrow> string \<Rightarrow> json list \<Rightarrow> error + json list" where
  "sortBooks P key result = js_sort (compareBooks P key) result"

definition getFilteredBooks ::
  "platform \<Rightarrow> string \<Rightarrow> filterState \<Rightarrow> json list \<Rightarrow> error + json list" where
  "getFilteredBooks P searchInput fs books =
     (let query = trim P (toLowerCase P searchInput) in
      bindE (filterE (matchesFilter P query fs) books) (sortBooks P (sortBy fs)))"

section \<open>Application state and the persistent store\<close>

text \<open>
  \<^verbatim>\<open>localStorage\<close> is a map from keys to texts; \<^verbatim>\<open>setItem\<close> is taken to succeed (quota
  exhaustion is not modelled). The state is the global \<^verbatim>\<open>books\<close> array and the store.
  The DOM updates that follow a mutation (\<^verbatim>\<open>closeModal\<close>, \<^verbatim>\<open>renderAll\<close>, ...) touch neither.
\<close>

record state =
  books :: "json list"
  storage :: "string \<Rightarrow> string option"

definition STORAGE_KEY :: string where
  "STORAGE_KEY = ''harrys-reading-list''"

definition COVER_CACHE_KEY :: string where
  "COVER_CACHE_KEY = ''reading-list-covers''"

text \<open>\<^verbatim>\<open>loadBooks\<close>: \<^verbatim>\<open>data ? JSON.parse(data) : []\<close> inside \<^verbatim>\<open>try\<close>; the result is whatever
  was parsed.\<close>

definition loadBooks :: "platform \<Rightarrow> (string \<Rightarrow> string option) \<Rightarrow> json" where
  "loadBooks P store =
     (case store STORAGE_KEY of
        None \<Rightarrow> JArr []
      | Some data \<Rightarrow>
          if data \<noteq> [] then (case JSON_parse P data of None \<Rightarrow> JArr [] | Some v \<Rightarrow> v)
          else JArr [])"

definition saveBooks :: "platform \<Rightarrow> state \<Rightarrow> state" where
  "saveBooks P s =
     s\<lparr>storage := (storage s)(STORAGE_KEY \<mapsto> JSON_stringify P (JArr (books s)))\<rparr>"

section \<open>Detail modal: change of status and deletion\<close>

fun findE :: "('a \<Rightarrow> error + bool) \<Rightarrow> 'a list \<Rightarrow> error + 'a option" where
  "findE p [] = Inr None"
| "findE p (x # xs) = bindE (p x) (\<lambda>hit. if hit then Inr (Some x) else findE p xs)"

fun findIndexE :: "('a \<Rightarrow> error + bool) \<Rightarrow> 'a list \<Rightarrow> error + nat option" where
  "findIndexE p [] = Inr None"
| "findIndexE p (x # xs) =
     bindE (p x) (\<lambda>hit.
       if hit then Inr (Some 0)
       else bindE (findIndexE p xs) (\<lambda>r. Inr (map_option Suc r)))"

text \<open>\<^verbatim>\<open>b => b.id === id\<close>.\<close>

definition idIs :: "string \<Rightarrow> json \<Rightarrow> error + bool" where
  "idIs i b = bindE (getProp (Some b) ''id'') (\<lambda>v. Inr (eqStr v i))"

text \<open>\<^verbatim>\<open>obj.k = v\<close> in strict mode: an object takes the value in place or as a new last
  property (\<open>k\<close> is not an integer index); an array takes it as an extra property that
  \<^verbatim>\<open>JSON.stringify\<close> does not see; anything else throws.\<close>

definition setProp :: "json \<Rightarrow> string \<Rightarrow> json \<Rightarrow> error + json" where
  "setProp obj k v =
     (case obj of
        JObj kvs \<Rightarrow> Inr (JObj (AList.update k v kvs))
      | JArr xs \<Rightarrow> Inr (JArr xs)
      | _ \<Rightarrow> Inl TypeError)"

text \<open>
  \<^verbatim>\<open>showBookDetail(id)\<close> finds the book and returns if there is none; otherwise it binds
  the two handlers below to that book object. The change handler assigns
  \<^verbatim>\<open>book.status\<close> and saves; the object is the first one of the array with that id.
\<close>

definition changeStatus :: "platform \<Rightarrow> string \<Rightarrow> string \<Rightarrow> state \<Rightarrow> error + state" where
  "changeStatus P i newStatus s =
     bindE (findE (idIs i) (books s)) (\<lambda>r.
       case r of
         None \<Rightarrow> Inr s
       | Some book \<Rightarrow>
           bindE (setProp book ''status'' (JStr newStatus)) (\<lambda>book'.
           bindE (findIndexE (idIs i) (books s)) (\<lambda>idx.
             Inr (saveBooks P
                   (case idx of
                      None \<Rightarrow> s
                    | Some n \<Rightarrow> s\<lparr>books := (books s)[n := book']\<rparr>)))))"

text \<open>The delete handler, once confirmed: \<^verbatim>\<open>books = books.filter(b => b.id !== id)\<close>.\<close>

definition deleteBook :: "platform \<Rightarrow> string \<Rightarrow> state \<Rightarrow> error + state" where
  "deleteBook P i s =
     bindE (findE (idIs i) (books s)) (\<lambda>r.
       case r of
         None \<Rightarrow> Inr s
       | Some book \<Rightarrow>
           bindE (filterE (\<lambda>b. bindE (idIs i b) (\<lambda>same. Inr (\<not> same))) (books s)) (\<lambda>bs.
             Inr (saveBooks P (s\<lparr>books := bs\<rparr>))))"

section \<open>Add and edit: \<^verbatim>\<open>handleFormSubmit\<close>\<close>

record form =
  formBookId :: string
  formTitle :: string
  formAuthor :: string
  formGenre :: string
  formYear :: string
  formPages :: string
  formCover :: string
  formFormat :: string
  formStatus :: string
  formDatePurchased :: string
  formDateStarted :: string
  formDateCompleted :: string
  formCurrentPage :: string
  formRating :: string
  formFavorite :: bool
  formTags :: string
  formRecommendedBy :: string
  formNotes :: string
  formDescription :: string

text \<open>\<^verbatim>\<open>parseInt(s) || null\<close>.\<close>

definition parseIntOrNull :: "platform \<Rightarrow> string \<Rightarrow> json" where
  "parseIntOrNull P s =
     (case parseInt P s of None \<Rightarrow> JNull | Some n \<Rightarrow> if n = 0 then JNull else JNum n)"

text \<open>\<^verbatim>\<open>s.split(',')\<close>.\<close>

fun splitComma :: "string \<Rightarrow> string list" where
  "splitComma [] = [[]]"
| "splitComma (c # cs) =
     (if c = CHR '','' then [] # splitComma cs
      else (case splitComma cs of [] \<Rightarrow> [[c]] | w # ws \<Rightarrow> (c # w) # ws))"

text \<open>\<^verbatim>\<open>value.split(',').map(t => t.trim()).filter(Boolean)\<close>.\<close>

definition tagsOf :: "platform \<Rightarrow> string \<Rightarrow> json" where
  "tagsOf P s = JArr (map JStr (filter (\<lambda>t. t \<noteq> []) (map (trim P) (splitComma s))))"

text \<open>\<^verbatim>\<open>books.find(b => b.id === id)?.dateAdded || today()\<close>.\<close>

definition keptDateAdded :: "string \<Rightarrow> string \<Rightarrow> json list \<Rightarrow> error + json" where
  "keptDateAdded i today bs =
     bindE (findE (idIs i) bs) (\<lambda>r.
     bindE (case r of None \<Rightarrow> Inr None | Some b \<Rightarrow> getProp (Some b) ''dateAdded'') (\<lambda>d.
       Inr (case d of None \<Rightarrow> JStr today | Some v \<Rightarrow> if truthy d then v else JStr today)))"

text \<open>The object literal \<^verbatim>\<open>bookData\<close>, property by property.\<close>

definition bookData :: "platform \<Rightarrow> form \<Rightarrow> string \<Rightarrow> json \<Rightarrow> json" where
  "bookData P f i dateAdded =
     JObj [(''id'', JStr i),
           (''title'', JStr (trim P (formTitle f))),
           (''author'', JStr (trim P (formAuthor f))),
           (''genre'', JStr (formGenre f)),
           (''yearPublished'', parseIntOrNull P (formYear f)),
           (''pageCount'', parseIntOrNull P (formPages f)),
           (''coverImage'', JStr (trim P (formCover f))),
           (''format'', JStr (formFormat f)),
           (''status'', JStr (formStatus f)),
           (''datePurchased'', JStr (formDatePurchased f)),
           (''dateStarted'', JStr (formDateStarted f)),
           (''dateCompleted'', JStr (formDateCompleted f)),
           (''currentPage'', parseIntOrNull P (formCurrentPage f)),
           (''rating'', parseIntOrNull P (formRating f)),
           (''favorite'', JBool (formFavorite f)),
           (''tags'', tagsOf P (formTags f)),
           (''recommendedBy'', JStr (trim P (formRecommendedBy f))),
           (''notes'', JStr (trim P (formNotes f))),
           (''description'', JStr (trim P (formDescription f))),
           (''dateAdded'', dateAdded)]"

text \<open>
  \<^verbatim>\<open>handleFormSubmit\<close>. The results of \<^verbatim>\<open>generateId()\<close> (time and random digits) and of
  \<^verbatim>\<open>today()\<close> are inputs of the model. A non-empty \<^verbatim>\<open>formBookId\<close> means an edit:
  \<^verbatim>\<open>books[idx] = bookData\<close> at the first index with that id, if any; otherwise the new
  book is pushed.
\<close>

definition handleFormSubmit ::
  "platform \<Rightarrow> string \<Rightarrow> string \<Rightarrow> form \<Rightarrow> state \<Rightarrow> error + state" where
  "handleFormSubmit P generatedId today f s =
     (let i = formBookId f; isEdit = (i \<noteq> []) in
      if isEdit then
        bindE (keptDateAdded i today (books s)) (\<lambda>d.
        bindE (findIndexE (idIs i) (books s)) (\<lambda>idx.
          Inr (saveBooks P
                (case idx of
                   None \<Rightarrow> s
                 | Some n \<Rightarrow> s\<lparr>books := (books s)[n := bookData P f i d]\<rparr>))))
      else
        Inr (saveBooks P (s\<lparr>books := books s @ [bookData P f generatedId (JStr today)]\<rparr>)))"

section \<open>Import and export\<close>


text \<open>The notifications of \<^verbatim>\<open>doImport\<close>: "No data to import", "Invalid format - expected an
  array of books", "Import failed - invalid JSON" and "Imported n books".\<close>

datatype toast = NoDataToImport | InvalidFormat | ImportFailed | Imported nat

text \<open>The text that \<^verbatim>\<open>doImport\<close> parses: the content of the chosen file if there is one,
  else the trimmed textarea if it is not empty, else nothing.\<close>

definition importSource :: "platform \<Rightarrow> string option \<Rightarrow> string \<Rightarrow> string option" where
  "importSource P file textarea =
     (let text = trim P textarea in
      case file of
        Some content \<Rightarrow> Some content
      | None \<Rightarrow> if text \<noteq> [] then Some text else None)"

text \<open>Membership in \<^verbatim>\<open>new Set(..)\<close> is SameValueZero: primitives are compared by value; an
  object or array of the imported document is never the same object as one already held.\<close>

definition sameValueZero :: "jsval \<Rightarrow> jsval \<Rightarrow> bool" where
  "sameValueZero u v =
     (u = v \<and> (case u of Some (JArr xs) \<Rightarrow> False | Some (JObj kvs) \<Rightarrow> False | _ \<Rightarrow> True))"

fun mapE :: "('a \<Rightarrow> error + 'b) \<Rightarrow> 'a list \<Rightarrow> error + 'b list" where
  "mapE f [] = Inr []"
| "mapE f (x # xs) = bindE (f x) (\<lambda>y. bindE (mapE f xs) (\<lambda>ys. Inr (y # ys)))"

text \<open>The merge branch: \<^verbatim>\<open>existingIds = new Set(books.map(b => b.id))\<close>,
  \<^verbatim>\<open>newBooks = data.filter(b => !existingIds.has(b.id))\<close>, \<^verbatim>\<open>books.concat(newBooks)\<close>.\<close>

definition mergeBooks :: "json list \<Rightarrow> json list \<Rightarrow> error + json list" where
  "mergeBooks bs data =
     bindE (mapE (\<lambda>b. getProp (Some b) ''id'') bs) (\<lambda>existingIds.
     bindE (filterE (\<lambda>b. bindE (getProp (Some b) ''id'') (\<lambda>v.
                       Inr (\<not> list_ex (\<lambda>u. sameValueZero u v) existingIds))) data) (\<lambda>newBooks.
       Inr (bs @ newBooks)))"

text \<open>
  \<^verbatim>\<open>doImport\<close>: everything runs inside one \<^verbatim>\<open>try\<close>, whose \<^verbatim>\<open>catch\<close> shows "Import failed".
  The result is the state after \<^verbatim>\<open>saveBooks()\<close> and the notification; "Imported n books"
  is shown once the view has been redrawn.
\<close>

definition doImport ::
  "platform \<Rightarrow> string option \<Rightarrow> string \<Rightarrow> bool \<Rightarrow> state \<Rightarrow> state \<times> toast" where
  "doImport P file textarea replace s =
     (case importSource P file textarea of
        None \<Rightarrow> (s, NoDataToImport)
      | Some src \<Rightarrow>
          (case JSON_parse P src of
             None \<Rightarrow> (s, ImportFailed)
           | Some (JArr data) \<Rightarrow>
               if replace then (saveBooks P (s\<lparr>books := data\<rparr>), Imported (length data))
               else (case mergeBooks (books s) data of
                       Inl e \<Rightarrow> (s, ImportFailed)
                     | Inr bs \<Rightarrow> (saveBooks P (s\<lparr>books := bs\<rparr>), Imported (length data)))
           | Some other \<Rightarrow> (s, InvalidFormat)))"

section \<open>Cover cache and \<^verbatim>\<open>fetchCoverForBook\<close>\<close>

text \<open>\<^verbatim>\<open>loadCoverCache\<close>: \<^verbatim>\<open>JSON.parse(localStorage.getItem(KEY)) || {}\<close> inside \<^verbatim>\<open>try\<close>; an
  absent record reads as \<^verbatim>\<open>null\<close>, which parses to \<^verbatim>\<open>null\<close>.\<close>

definition loadCoverCache :: "platform \<Rightarrow> (string \<Rightarrow> string option) \<Rightarrow> json" where
  "loadCoverCache P store =
     (case store COVER_CACHE_KEY of
        None \<Rightarrow> JObj []
      | Some text \<Rightarrow>
          (case JSON_parse P text of
             None \<Rightarrow> JObj []
           | Some v \<Rightarrow> if truthy (Some v) then v else JObj []))"

definition saveCoverCache ::
  "platform \<Rightarrow> json \<Rightarrow> (string \<Rightarrow> string option) \<Rightarrow> (string \<Rightarrow> string option)" where
  "saveCoverCache P cache store = store(COVER_CACHE_KEY \<mapsto> JSON_stringify P cache)"

text \<open>\<^verbatim>\<open>cacheKey in cache\<close> for a key of the form \<^verbatim>\<open>title|||author\<close>, which is never an
  index, \<^verbatim>\<open>length\<close> or a prototype member: true for an own property of an object, false
  for an array, a TypeError for a primitive.\<close>

definition cacheHas :: "string \<Rightarrow> json \<Rightarrow> error + bool" where
  "cacheHas k cache =
     (case cache of
        JObj kvs \<Rightarrow> Inr (map_of kvs k \<noteq> None)
      | JArr xs \<Rightarrow> Inr False
      | _ \<Rightarrow> Inl TypeError)"

text \<open>\<^verbatim>\<open>v[0]\<close>.\<close>

fun index0 :: "jsval \<Rightarrow> error + jsval" where
  "index0 None = Inl TypeError"
| "index0 (Some JNull) = Inl TypeError"
| "index0 (Some (JArr xs)) = Inr (case xs of [] \<Rightarrow> None | x # rest \<Rightarrow> Some x)"
| "index0 (Some (JStr s)) = Inr (case s of [] \<Rightarrow> None | c # rest \<Rightarrow> Some (JStr [c]))"
| "index0 (Some (JObj kvs)) = Inr (map_of kvs ''0'')"
| "index0 (Some (JBool b)) = Inr None"
| "index0 (Some (JNum n)) = Inr None"

text \<open>\<^verbatim>\<open>v > 0\<close>.\<close>

definition gtZero :: "platform \<Rightarrow> jsval \<Rightarrow> bool" where
  "gtZero P v = (case toNumber P v of None \<Rightarrow> False | Some n \<Rightarrow> 0 < n)"

text \<open>\<^verbatim>\<open>s.replace(pat, rep)\<close> with a non-empty string pattern: the first occurrence.\<close>

fun replaceFirst :: "string \<Rightarrow> string \<Rightarrow> string \<Rightarrow> string" where
  "replaceFirst pat rep [] = []"
| "replaceFirst pat rep (c # cs) =
     (if prefix pat (c # cs) then rep @ drop (length pat) (c # cs)
      else c # replaceFirst pat rep cs)"

text \<open>
  The body of the \<^verbatim>\<open>try\<close> of strategies 1 and 2 after the response has been read:
  \<open>Inr (Some u)\<close> assigns \<open>u\<close> to \<^verbatim>\<open>url\<close>, \<open>Inr None\<close> leaves it, \<open>Inl\<close> is a throw that
  the \<^verbatim>\<open>catch\<close> swallows.
\<close>

definition openLibraryCover :: "platform \<Rightarrow> json \<Rightarrow> error + json option" where
  "openLibraryCover P data =
     bindE (getProp (Some data) ''docs'') (\<lambda>docs.
       if \<not> truthy docs then Inr None else
       bindE (getProp docs ''length'') (\<lambda>len.
         if \<not> gtZero P len then Inr None else
         bindE (index0 docs) (\<lambda>doc.
         bindE (getProp doc ''cover_edition_key'') (\<lambda>k.
           if truthy k then
             Inr (Some (JStr (''https://covers.openlibrary.org/b/olid/'' @ toString k @ ''-M.jpg'')))
           else Inr None))))"

text \<open>The same for strategy 3: \<^verbatim>\<open>data.items[0].volumeInfo?.imageLinks\<close>, then
  \<^verbatim>\<open>(thumbnail || smallThumbnail || '').replace('http://', 'https://')\<close>.\<close>

definition googleBooksCover :: "platform \<Rightarrow> json \<Rightarrow> error + json option" where
  "googleBooksCover P data =
     bindE (getProp (Some data) ''items'') (\<lambda>items.
       if \<not> truthy items then Inr None else
       bindE (getProp items ''length'') (\<lambda>len.
         if \<not> gtZero P len then Inr None else
         bindE (index0 items) (\<lambda>item.
         bindE (getProp item ''volumeInfo'') (\<lambda>info.
         bindE (if info = None \<or> info = Some JNull then Inr None
                else getProp info ''imageLinks'') (\<lambda>imageLinks.
           if \<not> truthy imageLinks then Inr None else
           bindE (getProp imageLinks ''thumbnail'') (\<lambda>th.
           bindE (if truthy th then Inr th
                  else bindE (getProp imageLinks ''smallThumbnail'') (\<lambda>sm.
                         Inr (orElse sm (Some (JStr []))))) (\<lambda>link.
             case link of
               Some (JStr l) \<Rightarrow> Inr (Some (JStr (replaceFirst ''http://'' ''https://'' l)))
             | _ \<Rightarrow> Inl TypeError)))))))"

text \<open>
  One strategy: build the request (\<^verbatim>\<open>encodeURIComponent\<close> may throw before anything is
  sent), send it, read the response. \<open>net u\<close> is the body of the response to a GET of
  \<open>u\<close> as \<^verbatim>\<open>resp.json()\<close> returns it, \<open>None\<close> if \<^verbatim>\<open>fetch\<close> or \<^verbatim>\<open>resp.json()\<close> throws. The
  result is the new value of \<^verbatim>\<open>url\<close> and the requests sent.
\<close>

definition attempt ::
  "(string \<Rightarrow> json option) \<Rightarrow> (json \<Rightarrow> error + json option) \<Rightarrow> string option \<Rightarrow> json
     \<Rightarrow> json \<times> string list" where
  "attempt net extract request url =
     (case request of
        None \<Rightarrow> (url, [])
      | Some u \<Rightarrow>
          (case net u of
             None \<Rightarrow> (url, [u])
           | Some data \<Rightarrow>
               (case extract data of
                  Inr (Some found) \<Rightarrow> (found, [u])
                | _ \<Rightarrow> (url, [u]))))"

text \<open>The three request addresses; \<open>None\<close> where \<^verbatim>\<open>encodeURIComponent\<close> throws.\<close>

definition request1 :: "platform \<Rightarrow> jsval \<Rightarrow> jsval \<Rightarrow> string option" where
  "request1 P title author =
     (case (encodeURIComponent P (toString title), encodeURIComponent P (toString author)) of
        (Some t, Some a) \<Rightarrow>
          Some (''https://openlibrary.org/search.json?title='' @ t @ ''&author='' @ a @ ''&limit=1'')
      | _ \<Rightarrow> None)"

definition request2 :: "platform \<Rightarrow> jsval \<Rightarrow> string option" where
  "request2 P title =
     (case encodeURIComponent P (toString title) of
        Some t \<Rightarrow> Some (''https://openlibrary.org/search.json?title='' @ t @ ''&limit=1'')
      | None \<Rightarrow> None)"

definition request3 :: "platform \<Rightarrow> jsval \<Rightarrow> jsval \<Rightarrow> string option" where
  "request3 P title author =
     (case (encodeURIComponent P (toString title), encodeURIComponent P (toString author)) of
        (Some t, Some a) \<Rightarrow>
          Some (''https://www.googleapis.com/books/v1/volumes?q=intitle:'' @ t @ ''+inauthor:''
                @ a @ ''&maxResults=1'')
      | _ \<Rightarrow> None)"

text \<open>\<^verbatim>\<open>`${book.title}|||${book.author}`\<close>.\<close>

definition cacheKeyOf :: "jsval \<Rightarrow> jsval \<Rightarrow> string" where
  "cacheKeyOf title author = toString title @ ''|||'' @ toString author"

text \<open>
  \<^verbatim>\<open>fetchCoverForBook\<close> is an async function, and \<^verbatim>\<open>lazyLoadCovers\<close> starts one call for
  every card that has come into view without waiting for the call before. A call runs
  uninterrupted up to its first \<^verbatim>\<open>await\<close>: it reads the cache (line 52), builds its key and
  returns the cached value on a hit (line 54). On a miss it sends its requests and waits
  for each answer; while it waits other handlers run, other calls among them. With its
  last answer it puts the result into the cache object it read at line 52 and saves that
  object (lines 93-94), over whatever the store holds by then. The store is read at line
  52 and written at line 94 and nowhere between, so the model has one function for the
  read and one for the requests and the write; it records which requests a call sends,
  not the instants at which they leave.
\<close>

record pendingFetch =
  snapshot :: json
  pendingKey :: string
  pendingTitle :: jsval
  pendingAuthor :: jsval

datatype fetchStart = Cached jsval | Pending pendingFetch

text \<open>Lines 52-54: the start of a call, on the store as it is then.\<close>

definition beginFetch ::
  "platform \<Rightarrow> (string \<Rightarrow> string option) \<Rightarrow> json \<Rightarrow> error + fetchStart" where
  "beginFetch P store book =
     (let cache = loadCoverCache P store in
      bindE (getProp (Some book) ''title'') (\<lambda>title.
      bindE (getProp (Some book) ''author'') (\<lambda>author.
        let cacheKey = cacheKeyOf title author in
        bindE (cacheHas cacheKey cache) (\<lambda>hit.
          Inr (if hit then Cached (field cache cacheKey)
               else Pending \<lparr>snapshot = cache, pendingKey = cacheKey, pendingTitle = title,
                             pendingAuthor = author\<rparr>)))))"

text \<open>Lines 56-91: the three strategies in order, each tried only while \<^verbatim>\<open>url\<close> is falsy.
  The store is neither read nor written here. The result is \<^verbatim>\<open>url\<close> and the requests
  sent.\<close>

definition tryStrategies ::
  "platform \<Rightarrow> (string \<Rightarrow> json option) \<Rightarrow> jsval \<Rightarrow> jsval \<Rightarrow> json \<times> string list" where
  "tryStrategies P net title author =
     (let (url1, sent1) = attempt net (openLibraryCover P) (request1 P title author) JNull;
          (url2, sent2) = (if \<not> truthy (Some url1)
                           then attempt net (openLibraryCover P) (request2 P title) url1
                           else (url1, []));
          (url3, sent3) = (if \<not> truthy (Some url2)
                           then attempt net (googleBooksCover P) (request3 P title author) url2
                           else (url2, []))
      in (url3, sent1 @ sent2 @ sent3))"

text \<open>The rest of a call that missed: its requests, then lines 93-95 on the store as it is
  when the last answer has come. What is saved is the snapshot with the call's own key
  added, not the cache of that store. The result is the value returned, the store
  afterwards and the requests sent; \<open>Inl\<close> is a rejected promise.\<close>

definition completeFetch ::
  "platform \<Rightarrow> (string \<Rightarrow> json option) \<Rightarrow> pendingFetch \<Rightarrow> (string \<Rightarrow> string option)
     \<Rightarrow> error + (jsval \<times> (string \<Rightarrow> string option) \<times> string list)" where
  "completeFetch P net p store =
     (let (url, sent) = tryStrategies P net (pendingTitle p) (pendingAuthor p) in
      bindE (setProp (snapshot p) (pendingKey p) url) (\<lambda>cache'.
        Inr (Some url, saveCoverCache P cache' store, sent)))"

text \<open>A call of \<^verbatim>\<open>fetchCoverForBook\<close> during which no other handler runs: the store it
  writes is the store it read.\<close>

definition fetchCoverForBook ::
  "platform \<Rightarrow> (string \<Rightarrow> json option) \<Rightarrow> (string \<Rightarrow> string option) \<Rightarrow> json
     \<Rightarrow> error + (jsval \<times> (string \<Rightarrow> string option) \<times> string list)" where
  "fetchCoverForBook P net store book =
     bindE (beginFetch P store book) (\<lambda>start.
       case start of
         Cached v \<Rightarrow> Inr (v, store, [])
       | Pending p \<Rightarrow> completeFetch P net p store)"

text \<open>
  Calls that \<^verbatim>\<open>lazyLoadCovers\<close> starts in one run of its observer callback, for the books
  of the cards that have come into view: the \<^verbatim>\<open>forEach\<close> starts every call before any of
  them resumes, so all of them begin on the same store. Those that hit, and those that
  threw at line 54, write nothing. Those that missed then complete one after the other,
  here in the order in which they started; a call whose promise is rejected writes
  nothing and the others go on. The result is the store after the last of them and the
  requests sent by the calls that completed.
\<close>

fun completeAll ::
  "platform \<Rightarrow> (string \<Rightarrow> json option) \<Rightarrow> pendingFetch list \<Rightarrow> (string \<Rightarrow> string option)
     \<Rightarrow> (string \<Rightarrow> string option) \<times> string list" where
  "completeAll P net [] store = (store, [])"
| "completeAll P net (p # ps) store =
     (case completeFetch P net p store of
        Inl e \<Rightarrow> completeAll P net ps store
      | Inr (r, store', sent) \<Rightarrow>
          (let (store'', sent') = completeAll P net ps store' in (store'', sent @ sent')))"

definition pendingOf :: "(error + fetchStart) list \<Rightarrow> pendingFetch list" where
  "pendingOf starts =
     List.map_filter (\<lambda>r. case r of Inr (Pending p) \<Rightarrow> Some p | _ \<Rightarrow> None) starts"

definition startedTogether ::
  "platform \<Rightarrow> (string \<Rightarrow> json option) \<Rightarrow> (string \<Rightarrow> string option) \<Rightarrow> json list
     \<Rightarrow> (string \<Rightarrow> string option) \<times> string list" where
  "startedTogether P net store inView =
     completeAll P net (pendingOf (map (beginFetch P store) inView)) store"

section \<open>Properties referred to by the theorems\<close>

text \<open>The invariant of the data model: every book is an object with a string id, and no
  two books have the same id.\<close>

definition hasStringId :: "json \<Rightarrow> bool" where
  "hasStringId b = (case field b ''id'' of Some (JStr i) \<Rightarrow> True | _ \<Rightarrow> False)"

definition uniqueIds :: "json list \<Rightarrow> bool" where
  "uniqueIds bs = (list_all hasStringId bs \<and> distinct (map (\<lambda>b. field b ''id'') bs))"

text \<open>The books of a result, if the handler returned.\<close>

definition booksOf :: "error + state \<Rightarrow> json list option" where
  "booksOf r = (case r of Inl e \<Rightarrow> None | Inr s \<Rightarrow> Some (books s))"

text \<open>The cache key of a book that is not \<^verbatim>\<open>null\<close>.\<close>

definition bookKey :: "json \<Rightarrow> string" where
  "bookKey book = cacheKeyOf (field book ''title'') (field book ''author'')"

text \<open>\<^verbatim>\<open>JSON.parse\<close> gives back what \<^verbatim>\<open>JSON.stringify\<close> was given.\<close>

definition roundTrips :: "platform \<Rightarrow> json \<Rightarrow> bool" where
  "roundTrips P v = (JSON_parse P (JSON_stringify P v) = Some v)"

text \<open>Ties of \<^verbatim>\<open>localeCompare\<close> form an equivalence: the part of a consistent comparator
  that stability needs.\<close>

definition tieEquiv :: "platform \<Rightarrow> bool" where
  "tieEquiv P =
     ((\<forall>x y. localeCompare P x y = 0 \<longrightarrow> localeCompare P y x = 0) \<and>
      (\<forall>x y z. localeCompare P x y = 0 \<and> localeCompare P y z = 0 \<longrightarrow> localeCompare P x z = 0))"

text \<open>A book whose sort key has the type the data model gives it: a string title or
  author, a rating or year that is a number or unset, a creation date that is a string
  or empty.\<close>

definition isStrVal :: "jsval \<Rightarrow> bool" where
  "isStrVal v = (case v of Some (JStr s) \<Rightarrow> True | _ \<Rightarrow> False)"

definition isNumOrUnset :: "jsval \<Rightarrow> bool" where
  "isNumOrUnset v =
     (case v of None \<Rightarrow> True | Some JNull \<Rightarrow> True | Some (JNum n) \<Rightarrow> True | _ \<Rightarrow> False)"

definition sortable :: "string \<Rightarrow> json \<Rightarrow> bool" where
  "sortable key b =
     (case b of
        JObj kvs \<Rightarrow>
          (if key = ''title'' then isStrVal (map_of kvs ''title'')
           else if key = ''author'' then isStrVal (map_of kvs ''author'')
           else if key = ''rating'' then isNumOrUnset (map_of kvs ''rating'')
           else if key = ''yearPublished'' then isNumOrUnset (map_of kvs ''yearPublished'')
           else (\<not> truthy (map_of kvs ''dateAdded'') \<or> isStrVal (map_of kvs ''dateAdded'')))
      | _ \<Rightarrow> False)"

text \<open>Two books tie under a sort key when the comparator returns 0 for them.\<close>

definition tied :: "platform \<Rightarrow> string \<Rightarrow> json \<Rightarrow> json \<Rightarrow> bool" where
  "tied P key a x = (compareBooks P key a x = Inr (Some 0))"

definition unrated :: "json \<Rightarrow> bool" where
  "unrated b = (field b ''rating'' = Some JNull \<or> field b ''rating'' = None)"

definition rated :: "json \<Rightarrow> bool" where
  "rated b = (case field b ''rating'' of Some (JNum n) \<Rightarrow> 1 \<le> n \<and> n \<le> 5 | _ \<Rightarrow> False)"

text \<open>The number a book is sorted by under the keys \<^verbatim>\<open>rating\<close> and \<^verbatim>\<open>yearPublished\<close>:
  \<^verbatim>\<open>b.key || 0\<close>.\<close>

definition numKey :: "string \<Rightarrow> json \<Rightarrow> int" where
  "numKey key b = (case field b key of Some (JNum n) \<Rightarrow> n | _ \<Rightarrow> 0)"

text \<open>The string a book is sorted by under the keys \<^verbatim>\<open>title\<close>, \<^verbatim>\<open>author\<close> and
  \<^verbatim>\<open>dateAdded\<close> (\<^verbatim>\<open>b.dateAdded || ''\<close>), when it has the type of the data model.\<close>

definition strKey :: "string \<Rightarrow> json \<Rightarrow> string" where
  "strKey key b = (case field b key of Some (JStr s) \<Rightarrow> s | _ \<Rightarrow> [])"

text \<open>The filter as the specification words it: the conjunction of the active predicates.\<close>

definition specMatches :: "platform \<Rightarrow> string \<Rightarrow> filterState \<Rightarrow> json \<Rightarrow> bool" where
  "specMatches P query fs book =
     ((query = [] \<or>
        (\<exists>t. field book ''title'' = Some (JStr t) \<and> sublist query (toLowerCase P t)) \<or>
        (\<exists>a. field book ''author'' = Some (JStr a) \<and> sublist query (toLowerCase P a))) \<and>
      (genre fs = [] \<or> field book ''genre'' = Some (JStr (genre fs))) \<and>
      (status fs = [] \<or> field book ''status'' = Some (JStr (status fs))) \<and>
      (format fs = [] \<or> field book ''format'' = Some (JStr (format fs))) \<and>
      (rating fs = [] \<or>
        (if rating fs = ''none''
         then field book ''rating'' = None \<or> field book ''rating'' = Some JNull
         else \<exists>n. parseInt P (rating fs) = Some n \<and> field book ''rating'' = Some (JNum n))))"

text \<open>The filter configuration \<^verbatim>\<open>{rating: "none"}\<close> under a given sort key, and the
  configuration with no filter.\<close>

definition ratingNoneOnly :: "string \<Rightarrow> filterState" where
  "ratingNoneOnly key = \<lparr>genre = [], status = [], format = [], rating = ''none'', sortBy = key\<rparr>"

definition noFilter :: filterState where
  "noFilter = \<lparr>genre = [], status = [], format = [], rating = [], sortBy = ''dateAdded''\<rparr>"

text \<open>The position of the first book with a given id, none before it being \<^verbatim>\<open>null\<close>.\<close>

definition firstWithId :: "string \<Rightarrow> json list \<Rightarrow> nat \<Rightarrow> bool" where
  "firstWithId i bs n =
     (n < length bs \<and> field (bs ! n) ''id'' = Some (JStr i) \<and>
      (\<forall>m<n. bs ! m \<noteq> JNull \<and> field (bs ! m) ''id'' \<noteq> Some (JStr i)))"

text \<open>\<^verbatim>\<open>Array.isArray\<close>.\<close>

definition isArray :: "json \<Rightarrow> bool" where
  "isArray v = (case v of JArr xs \<Rightarrow> True | _ \<Rightarrow> False)"

section \<open>A platform instance for evaluation\<close>

text \<open>
  An instance on ASCII text, used to evaluate the model on concrete inputs: code-unit
  comparison for \<^verbatim>\<open>localeCompare\<close>, decimal \<^verbatim>\<open>parseInt\<close>, the compact and the two-space
  JSON serialisations of values whose strings need no escaping, and a \<^verbatim>\<open>JSON.parse\<close> that
  recognises the serialisations of a given list of documents and rejects every other text.
\<close>

definition isSpace :: "char \<Rightarrow> bool" where
  "isSpace c = (c \<in> set [CHR '' '', CHR 0x09, CHR 0x0A, CHR 0x0B, CHR 0x0C, CHR 0x0D])"

definition asciiTrim :: "string \<Rightarrow> string" where
  "asciiTrim s = rev (dropWhile isSpace (rev (dropWhile isSpace s)))"

definition asciiLower :: "string \<Rightarrow> string" where
  "asciiLower s =
     map (\<lambda>c. let n = (of_char c :: nat) in if 65 \<le> n \<and> n \<le> 90 then char_of (n + 32) else c) s"

fun compareCodes :: "nat list \<Rightarrow> nat list \<Rightarrow> int" where
  "compareCodes [] [] = 0"
| "compareCodes [] (y # ys) = - 1"
| "compareCodes (x # xs) [] = 1"
| "compareCodes (x # xs) (y # ys) =
     (if x < y then - 1 else if y < x then 1 else compareCodes xs ys)"

definition digitValue :: "char \<Rightarrow> nat option" where
  "digitValue c =
     (let n = (of_char c :: nat) in if 48 \<le> n \<and> n \<le> 57 then Some (n - 48) else None)"

definition decimalPrefix :: "string \<Rightarrow> nat option" where
  "decimalPrefix s =
     (let ds = takeWhile (\<lambda>c. digitValue c \<noteq> None) s in
      if ds = [] then None
      else Some (foldl (\<lambda>acc c. 10 * acc + (case digitValue c of Some d \<Rightarrow> d | None \<Rightarrow> 0)) 0 ds))"

definition decimalParseInt :: "string \<Rightarrow> int option" where
  "decimalParseInt s =
     (case dropWhile isSpace s of
        [] \<Rightarrow> None
      | c # cs \<Rightarrow>
          if c = CHR ''-'' then map_option (\<lambda>n. - int n) (decimalPrefix cs)
          else if c = CHR ''+'' then map_option int (decimalPrefix cs)
          else map_option int (decimalPrefix (c # cs)))"

definition decimalToNumber :: "string \<Rightarrow> int option" where
  "decimalToNumber s =
     (let t = asciiTrim s in
      if t = [] then Some 0
      else if list_all (\<lambda>c. digitValue c \<noteq> None) t then map_option int (decimalPrefix t)
      else None)"

definition hexDigit :: "nat \<Rightarrow> char" where
  "hexDigit n = ''0123456789ABCDEF'' ! (n mod 16)"

definition isUnreserved :: "char \<Rightarrow> bool" where
  "isUnreserved c =
     (let n = (of_char c :: nat) in
      (48 \<le> n \<and> n \<le> 57) \<or> (65 \<le> n \<and> n \<le> 90) \<or> (97 \<le> n \<and> n \<le> 122) \<or>
      c \<in> set ''-_.!~*'()'')"

definition percentEncode :: "string \<Rightarrow> string option" where
  "percentEncode s =
     Some (concat (map (\<lambda>c. if isUnreserved c then [c]
                            else [CHR ''%'', hexDigit (of_char c div 16), hexDigit (of_char c)]) s))"

definition quoted :: "string \<Rightarrow> string" where
  "quoted s = CHR 0x22 # s @ [CHR 0x22]"

fun printJson :: "json \<Rightarrow> string" where
  "printJson JNull = ''null''"
| "printJson (JBool b) = (if b then ''true'' else ''false'')"
| "printJson (JNum n) = showInt n"
| "printJson (JStr s) = quoted s"
| "printJson (JArr xs) = ''['' @ joinWith '','' (map printJson xs) @ '']''"
| "printJson (JObj kvs) =
     ''{'' @ joinWith '','' (map (\<lambda>(k, v). quoted k @ '':'' @ printJson v) kvs) @ ''}''"

fun prettyJson :: "nat \<Rightarrow> json \<Rightarrow> string" where
  "prettyJson n JNull = ''null''"
| "prettyJson n (JBool b) = (if b then ''true'' else ''false'')"
| "prettyJson n (JNum i) = showInt i"
| "prettyJson n (JStr s) = quoted s"
| "prettyJson n (JArr xs) =
     (if xs = [] then ''[]''
      else ''['' @ [CHR 0x0A]
           @ joinWith ('','' @ [CHR 0x0A])
               (map (\<lambda>x. replicate (n + 2) CHR '' '' @ prettyJson (n + 2) x) xs)
           @ [CHR 0x0A] @ replicate n CHR '' '' @ '']'')"
| "prettyJson n (JObj kvs) =
     (if kvs = [] then ''{}''
      else ''{'' @ [CHR 0x0A]
           @ joinWith ('','' @ [CHR 0x0A])
               (map (\<lambda>(k, v). replicate (n + 2) CHR '' '' @ quoted k @ '': ''
                                @ prettyJson (n + 2) v) kvs)
           @ [CHR 0x0A] @ replicate n CHR '' '' @ ''}'')"

definition parseAmong :: "json list \<Rightarrow> string \<Rightarrow> json option" where
  "parseAmong docs text = find (\<lambda>v. printJson v = text \<or> prettyJson 0 v = text) docs"

definition asciiPlatform :: "json list \<Rightarrow> platform" where
  "asciiPlatform docs =
     \<lparr>JSON_parse = parseAmong docs,
      JSON_stringify = printJson,
      JSON_stringify_pretty = prettyJson 0,
      toLowerCase = asciiLower,
      trim = asciiTrim,
      localeCompare = (\<lambda>s t. compareCodes (map of_char s) (map of_char t)),
      parseInt = decimalParseInt,
      stringToNumber = decimalToNumber,
      encodeURIComponent = percentEncode\<rparr>"

text \<open>Example data: the two books of the bucketing scenario, a cover cache, and the
  platform instance that recognises the documents the examples use.\<close>

definition exampleB1 :: json where
  "exampleB1 = JObj [(''id'', JStr ''b1''), (''status'', JStr ''finished''),
                     (''favorite'', JBool True), (''rating'', JNum 5)]"

definition exampleB2 :: json where
  "exampleB2 = JObj [(''id'', JStr ''b2''), (''status'', JStr ''finished''),
                     (''favorite'', JBool False)]"

definition exampleCache :: json where
  "exampleCache = JObj [(''Dune|||Frank Herbert'', JNull)]"

definition exampleB3 :: json where
  "exampleB3 = JObj [(''id'', JStr ''b3''), (''title'', JStr ''Dune''),
                     (''author'', JStr ''Frank Herbert'')]"

text \<open>A second book without a cover, and a network on which Open Library answers every
  search with one document that has a cover edition.\<close>

definition exampleB4 :: json where
  "exampleB4 = JObj [(''id'', JStr ''b4''), (''title'', JStr ''Emma''),
                     (''author'', JStr ''Jane Austen'')]"

definition exampleNet :: "string \<Rightarrow> json option" where
  "exampleNet u = Some (JObj [(''docs'', JArr [JObj [(''cover_edition_key'', JStr ''OL1M'')]])])"

text \<open>The cover cache with the cover of \<open>exampleB4\<close> only.\<close>

definition exampleCacheB4 :: json where
  "exampleCacheB4 =
     JObj [(''Emma|||Jane Austen'', JStr ''https://covers.openlibrary.org/b/olid/OL1M-M.jpg'')]"

definition exampleCacheB3 :: json where
  "exampleCacheB3 =
     JObj [(''Dune|||Frank Herbert'', JStr ''https://covers.openlibrary.org/b/olid/OL1M-M.jpg'')]"

definition exampleCacheBoth :: json where
  "exampleCacheBoth =
     JObj [(''Dune|||Frank Herbert'', JStr ''https://covers.openlibrary.org/b/olid/OL1M-M.jpg''),
           (''Emma|||Jane Austen'', JStr ''https://covers.openlibrary.org/b/olid/OL1M-M.jpg'')]"

text \<open>What is left of a result: nothing if it is a throw.\<close>

definition returned :: "error + 'a \<Rightarrow> 'a option" where
  "returned r = (case r of Inl e \<Rightarrow> None | Inr x \<Rightarrow> Some x)"

text \<open>An imported document: a book with the id of \<open>exampleB1\<close> and other fields, and a new
  book.\<close>

definition exampleImport :: "json list" where
  "exampleImport = [JObj [(''id'', JStr ''b1''), (''status'', JStr ''wishlist'')], exampleB3]"

text \<open>The book \<open>exampleB3\<close> as \<^verbatim>\<open>handleFormSubmit\<close> would have added it on 5 January 2025.\<close>

definition exampleDated :: json where
  "exampleDated = JObj [(''id'', JStr ''b3''), (''title'', JStr ''Dune''),
                        (''author'', JStr ''Frank Herbert''), (''status'', JStr ''wishlist''),
                        (''dateAdded'', JStr ''2025-01-05'')]"

text \<open>Five books to sort: two unrated, two rated 3, one rated 5; two share a title.\<close>

definition shelfBook :: "string \<Rightarrow> string \<Rightarrow> json \<Rightarrow> json" where
  "shelfBook i t r = JObj [(''id'', JStr i), (''title'', JStr t), (''rating'', r)]"

definition exampleShelf :: "json list" where
  "exampleShelf =
     [shelfBook ''a'' ''Emma'' JNull, shelfBook ''b'' ''Dune'' (JNum 3),
      shelfBook ''c'' ''Ulysses'' JNull, shelfBook ''d'' ''Beloved'' (JNum 5),
      shelfBook ''e'' ''Dune'' (JNum 3)]"

text \<open>An imported document in which two books have the same id.\<close>

definition exampleDuplicates :: "json list" where
  "exampleDuplicates = [exampleB3, JObj [(''id'', JStr ''b3''), (''title'', JStr ''Emma'')]]"

definition examplePlatform :: platform where
  "examplePlatform =
     asciiPlatform [JArr [], JNull, JNum 5, JObj [(''books'', JArr [])], exampleCache,
                    JArr [exampleB1, exampleB2], JArr exampleImport, JArr exampleDuplicates,
                    exampleCacheB4, exampleCacheB3, exampleCacheBoth]"

text \<open>The form as \<^verbatim>\<open>openEditForm\<close> fills it for \<open>exampleB3\<close>, with a page count typed in.\<close>

definition exampleEdit :: form where
  "exampleEdit =
     \<lparr>formBookId = ''b3'', formTitle = ''Dune'', formAuthor = ''Frank Herbert'',
      formGenre = [], formYear = [], formPages = ''412'', formCover = [], formFormat = [],
      formStatus = ''up-next'', formDatePurchased = [], formDateStarted = [],
      formDateCompleted = [], formCurrentPage = [], formRating = [], formFavorite = False,
      formTags = [], formRecommendedBy = [], formNotes = [], formDescription = []\<rparr>"

definition exampleState :: state where
  "exampleState = \<lparr>books = [exampleB1, exampleB2], storage = Map.empty\<rparr>"

text \<open>A collection that holds a book whose id has the form of the ids of \<^verbatim>\<open>generateId\<close>:
  \<^verbatim>\<open>b\<close>, the time in milliseconds in base 36 and four random digits in base 36.\<close>

definition exampleHeld :: state where
  "exampleHeld =
     \<lparr>books = [exampleB1, JObj [(''id'', JStr ''bmlq8z3k1a7f2''), (''title'', JStr ''Emma'')]],
      storage = Map.empty\<rparr>"

section \<open>Basic facts\<close>

lemma bindE_Inr [simp]: "bindE (Inr x) f = f x"
  by (simp add: bindE_def)

lemma bindE_Inl [simp]: "bindE (Inl e) f = Inl e"
  by (simp add: bindE_def)

lemma filterE_total:
  assumes "\<forall>x\<in>set xs. p x = Inr (q x)"
  shows "filterE p xs = Inr (filter q xs)"
  using assms by (induction xs) auto

lemma getProp_field:
  "b \<noteq> JNull \<Longrightarrow> k \<noteq> ''length'' \<Longrightarrow> getProp (Some b) k = Inr (field b k)"
  by (cases b) (simp_all add: field_def)

lemma getProp_null [simp]: "getProp (Some JNull) k = Inl TypeError"
  by simp

lemma getProp_field_mem:
  "JNull \<notin> set bs \<Longrightarrow> b \<in> set bs \<Longrightarrow> k \<noteq> ''length'' \<Longrightarrow>
   getProp (Some b) k = Inr (field b k)"
  by (rule getProp_field) auto

lemma books_saveBooks [simp]: "books (saveBooks P s) = books s"
  by (simp add: saveBooks_def)

lemma storage_saveBooks [simp]:
  "storage (saveBooks P s) STORAGE_KEY = Some (JSON_stringify P (JArr (books s)))"
  by (simp add: saveBooks_def)

section \<open>Bucketing: proofs\<close>

lemma bucketable_cases:
  assumes "bucketable b"
  obtains kvs s f where "b = JObj kvs" "map_of kvs ''status'' = Some (JStr s)"
    "s \<in> set statuses" "map_of kvs ''favorite'' = Some (JBool f)"
  using assms unfolding bucketable_def
  by (auto split: json.splits option.splits)

lemma bucketable_isFavorite:
  "bucketable b \<Longrightarrow> isFavorite b = Inr (inFavorite b)"
  by (erule bucketable_cases) (auto simp: isFavorite_def inFavorite_def)

lemma bucketable_hasStatus:
  "bucketable b \<Longrightarrow> hasStatus s b = Inr (inStatus s b)"
  by (erule bucketable_cases) (auto simp: hasStatus_def inStatus_def)

lemma bucketable_isCompleted:
  "bucketable b \<Longrightarrow> isCompleted b = Inr (inCompleted b)"
  by (erule bucketable_cases) (auto simp: isCompleted_def inCompleted_def)

lemma bucketable_exactly_one:
  assumes "bucketable b"
  shows "length (filter (\<lambda>p. p b = Inr True) bucketPredicates) = 1"
  using assms
  by (elim bucketable_cases)
     (auto simp: bucketPredicates_def isFavorite_def hasStatus_def isCompleted_def
        eqStr_def statuses_def)

lemma bucketable_all_return:
  assumes "bucketable b"
  shows "\<forall>p\<in>set bucketPredicates. \<exists>r. p b = Inr r"
  using assms
  by (elim bucketable_cases)
     (auto simp: bucketPredicates_def isFavorite_def hasStatus_def isCompleted_def)

lemma bucket_count_one:
  assumes "bucketable b"
  shows "(if inFavorite b then 1 else 0) + (if inStatus ''reading'' b then 1 else 0)
       + (if inStatus ''up-next'' b then 1 else 0) + (if inStatus ''wishlist'' b then 1 else 0)
       + (if inStatus ''on-hold'' b then 1 else 0) + (if inCompleted b then 1 else (0::nat)) = 1"
  using assms
  by (elim bucketable_cases)
     (auto simp: inFavorite_def inStatus_def inCompleted_def isFavorite_def hasStatus_def
        isCompleted_def eqStr_def statuses_def)

lemma six_filters_partition:
  assumes "\<forall>b\<in>set xs. bucketable b"
  shows "mset (filter inFavorite xs) + mset (filter (inStatus ''reading'') xs)
       + mset (filter (inStatus ''up-next'') xs) + mset (filter (inStatus ''wishlist'') xs)
       + mset (filter (inStatus ''on-hold'') xs) + mset (filter inCompleted xs) = mset xs"
  using assms
proof (induction xs)
  case Nil
  then show ?case by simp
next
  case (Cons b xs)
  from Cons.prems have b: "bucketable b" and rest: "\<forall>b\<in>set xs. bucketable b"
    by simp_all
  from bucket_count_one [OF b] Cons.IH [OF rest] show ?case
    by (auto split: if_splits)
qed

text \<open>
  C1. For every book whose status is one of the five values and whose favorite flag is a
  boolean, each of the six bucket predicates of \<^verbatim>\<open>renderAll\<close> returns, and exactly one of
  them holds; hence the six filtered lists of \<^verbatim>\<open>renderAll\<close> partition any filtered list
  of such books (every book occurs in exactly one of them, as often as in the input).
\<close>

theorem buckets_partition:
  assumes "\<forall>b\<in>set filtered. bucketable b"
  shows "(\<forall>b\<in>set filtered.
            (\<forall>p\<in>set bucketPredicates. \<exists>r. p b = Inr r) \<and>
            length (filter (\<lambda>p. p b = Inr True) bucketPredicates) = 1) \<and>
         (\<exists>s. renderAll_sections filtered = Inr s \<and>
            mset (favorites s) + mset (reading s) + mset (owned s) + mset (wantToBuy s)
              + mset (paused s) + mset (completed s) = mset filtered)"
proof -
  have fa: "filterE isFavorite filtered = Inr (filter inFavorite filtered)"
    using assms by (intro filterE_total) (simp add: bucketable_isFavorite)
  have st: "filterE (hasStatus s) filtered = Inr (filter (inStatus s) filtered)" for s
    using assms by (intro filterE_total) (simp add: bucketable_hasStatus)
  have co: "filterE isCompleted filtered = Inr (filter inCompleted filtered)"
    using assms by (intro filterE_total) (simp add: bucketable_isCompleted)
  have "renderAll_sections filtered =
          Inr \<lparr>favorites = filter inFavorite filtered,
               reading = filter (inStatus ''reading'') filtered,
               owned = filter (inStatus ''up-next'') filtered,
               wantToBuy = filter (inStatus ''wishlist'') filtered,
               paused = filter (inStatus ''on-hold'') filtered,
               completed = filter inCompleted filtered\<rparr>"
    by (simp add: renderAll_sections_def fa st co)
  with six_filters_partition [OF assms] bucketable_exactly_one bucketable_all_return assms
  show ?thesis by simp
qed

theorem buckets_partition_witness:
  "bucketable exampleB1 \<and> bucketable exampleB2 \<and>
   renderAll_sections [exampleB1, exampleB2] =
     Inr \<lparr>favorites = [exampleB1], reading = [], owned = [], wantToBuy = [], paused = [],
          completed = [exampleB2]\<rparr> \<and>
   length (filter (\<lambda>p. p exampleB1 = Inr True) bucketPredicates) = 1"
proof -
  have wf: "\<forall>b\<in>set [exampleB1, exampleB2]. bucketable b"
    by (simp add: bucketable_def exampleB1_def exampleB2_def statuses_def)
  have run: "renderAll_sections [exampleB1, exampleB2] =
     Inr \<lparr>favorites = [exampleB1], reading = [], owned = [], wantToBuy = [], paused = [],
          completed = [exampleB2]\<rparr>"
    by (simp add: renderAll_sections_def isFavorite_def hasStatus_def isCompleted_def eqStr_def
          exampleB1_def exampleB2_def)
  from buckets_partition [OF wf] wf run show ?thesis by simp
qed

section \<open>Persistent store: proofs\<close>

text \<open>
  C10, as the code has it. \<^verbatim>\<open>loadBooks\<close> returns the empty array when the stored record
  is absent, empty or fails to parse, and also when the stored text parses to an empty
  array, and in no other case. A stored text that is not empty and parses is returned as
  parsed, whatever its shape: the texts \<^verbatim>\<open>null\<close> and \<^verbatim>\<open>5\<close> give \<^verbatim>\<open>null\<close> and 5, not an
  empty collection.
\<close>

theorem loadBooks_cases:
  "(loadBooks P store = JArr [] \<longleftrightarrow>
      store STORAGE_KEY = None \<or> store STORAGE_KEY = Some [] \<or>
      (\<exists>t. store STORAGE_KEY = Some t \<and>
           (JSON_parse P t = None \<or> JSON_parse P t = Some (JArr [])))) \<and>
   (\<forall>t v. store STORAGE_KEY = Some t \<and> t \<noteq> [] \<and> JSON_parse P t = Some v \<longrightarrow>
          loadBooks P store = v)"
  by (auto simp: loadBooks_def split: option.splits)

theorem loadBooks_cases_witness:
  "(Map.empty(STORAGE_KEY \<mapsto> ''5'')) STORAGE_KEY = Some ''5'' \<and> ''5'' \<noteq> [] \<and>
   JSON_parse examplePlatform ''5'' = Some (JNum 5) \<and>
   loadBooks examplePlatform (Map.empty(STORAGE_KEY \<mapsto> ''5'')) = JNum 5 \<and>
   JSON_parse examplePlatform ''null'' = Some JNull \<and>
   loadBooks examplePlatform (Map.empty(STORAGE_KEY \<mapsto> ''null'')) = JNull"
proof -
  have p5: "JSON_parse examplePlatform ''5'' = Some (JNum 5)"
    by code_simp
  have pn: "JSON_parse examplePlatform ''null'' = Some JNull"
    by code_simp
  note parsed = loadBooks_cases [THEN conjunct2, rule_format]
  have a: "loadBooks examplePlatform (Map.empty(STORAGE_KEY \<mapsto> ''5'')) = JNum 5"
    by (rule parsed [where t = "''5''"]) (simp add: p5)
  have b: "loadBooks examplePlatform (Map.empty(STORAGE_KEY \<mapsto> ''null'')) = JNull"
    by (rule parsed [where t = "''null''"]) (simp add: pn)
  from a b p5 pn show ?thesis by simp
qed

text \<open>After an empty collection has been saved the record is present, not empty and
  parses, and \<^verbatim>\<open>loadBooks\<close> returns the empty array.\<close>

theorem loadBooks_empty_from_saved_record:
  "storage (saveBooks examplePlatform \<lparr>books = [], storage = Map.empty\<rparr>) STORAGE_KEY
     = Some ''[]'' \<and>
   ''[]'' \<noteq> [] \<and>
   JSON_parse examplePlatform ''[]'' = Some (JArr []) \<and>
   loadBooks examplePlatform (storage (saveBooks examplePlatform \<lparr>books = [], storage = Map.empty\<rparr>))
     = JArr []"
proof -
  have written: "JSON_stringify examplePlatform (JArr []) = ''[]''"
    by code_simp
  have stored: "storage (saveBooks examplePlatform \<lparr>books = [], storage = Map.empty\<rparr>) STORAGE_KEY
                  = Some ''[]''"
    by (simp add: written)
  have parsed: "JSON_parse examplePlatform ''[]'' = Some (JArr [])"
    by code_simp
  have "loadBooks examplePlatform (storage (saveBooks examplePlatform \<lparr>books = [], storage = Map.empty\<rparr>))
          = JArr []"
    by (simp add: loadBooks_def written parsed)
  with stored parsed show ?thesis by simp
qed

section \<open>Import: proofs\<close>

lemma doImport_parse_failure:
  "importSource P file textarea = Some src \<Longrightarrow> JSON_parse P src = None \<Longrightarrow>
   doImport P file textarea replace s = (s, ImportFailed)"
  by (simp add: doImport_def)

lemma doImport_not_array:
  "importSource P file textarea = Some src \<Longrightarrow> JSON_parse P src = Some v \<Longrightarrow>
   \<not> isArray v \<Longrightarrow> doImport P file textarea replace s = (s, InvalidFormat)"
  by (cases v) (simp_all add: doImport_def isArray_def)

text \<open>
  C9. When the text to import is not valid JSON, or parses to a value that is not an
  array, \<^verbatim>\<open>doImport\<close> shows a notification ("Import failed" or "Invalid format") and
  leaves the state, that is the collection in memory and the store, as it was.
\<close>

theorem import_failure_no_change:
  assumes "importSource P file textarea = Some src"
      and "JSON_parse P src = None \<or> (\<exists>v. JSON_parse P src = Some v \<and> \<not> isArray v)"
  shows "doImport P file textarea replace s =
           (s, if JSON_parse P src = None then ImportFailed else InvalidFormat)"
  using assms doImport_parse_failure doImport_not_array by fastforce

theorem import_failure_no_change_witness:
  "importSource examplePlatform None '' {\"books\":[]} '' = Some ''{\"books\":[]}'' \<and>
   (\<exists>v. JSON_parse examplePlatform ''{\"books\":[]}'' = Some v \<and> \<not> isArray v) \<and>
   doImport examplePlatform None '' {\"books\":[]} '' True exampleState =
     (exampleState, InvalidFormat) \<and>
   importSource examplePlatform (Some ''[{id:'') [] = Some ''[{id:'' \<and>
   JSON_parse examplePlatform ''[{id:'' = None \<and>
   doImport examplePlatform (Some ''[{id:'') [] False exampleState =
     (exampleState, ImportFailed)"
proof -
  have src1: "importSource examplePlatform None '' {\"books\":[]} '' = Some ''{\"books\":[]}''"
    by code_simp
  have parse1: "JSON_parse examplePlatform ''{\"books\":[]}'' = Some (JObj [(''books'', JArr [])])"
    by code_simp
  have notarr: "\<exists>v. JSON_parse examplePlatform ''{\"books\":[]}'' = Some v \<and> \<not> isArray v"
    using parse1 by (simp add: isArray_def)
  have src2: "importSource examplePlatform (Some ''[{id:'') [] = Some ''[{id:''"
    by code_simp
  have parse2: "JSON_parse examplePlatform ''[{id:'' = None"
    by code_simp
  from import_failure_no_change [OF src1, of True exampleState] notarr parse1
  have r1: "doImport examplePlatform None '' {\"books\":[]} '' True exampleState =
              (exampleState, InvalidFormat)"
    by simp
  from import_failure_no_change [OF src2, of False exampleState] parse2
  have r2: "doImport examplePlatform (Some ''[{id:'') [] False exampleState =
              (exampleState, ImportFailed)"
    by simp
  from src1 notarr r1 src2 parse2 r2 show ?thesis by simp
qed

lemma mapE_total:
  assumes "\<forall>x\<in>set xs. f x = Inr (g x)"
  shows "mapE f xs = Inr (map g xs)"
  using assms by (induction xs) auto

lemma mapE_id_null:
  "JNull \<in> set bs \<Longrightarrow> mapE (\<lambda>b. getProp (Some b) ''id'') bs = Inl TypeError"
proof (induction bs)
  case Nil
  then show ?case by simp
next
  case (Cons b bs)
  show ?case
  proof (cases "b = JNull")
    case True
    then show ?thesis by simp
  next
    case False
    with Cons show ?thesis by (simp add: getProp_field)
  qed
qed

lemma filterE_id_null:
  "JNull \<in> set ds \<Longrightarrow>
   filterE (\<lambda>b. bindE (getProp (Some b) ''id'') (\<lambda>v. Inr (q v))) ds = Inl TypeError"
proof (induction ds)
  case Nil
  then show ?case by simp
next
  case (Cons d ds)
  show ?case
  proof (cases "d = JNull")
    case True
    then show ?thesis by simp
  next
    case False
    with Cons show ?thesis by (simp add: getProp_field)
  qed
qed

lemma list_ex_sameValueZero:
  "list_ex (\<lambda>u. sameValueZero u v) (map (\<lambda>b. field b k) bs)
     = (\<exists>b\<in>set bs. sameValueZero (field b k) v)"
  by (simp add: list_ex_iff)

text \<open>The merge branch: a \<^verbatim>\<open>null\<close> element makes it throw; otherwise the imported books
  whose id no held book has are appended, in their order.\<close>

lemma mergeBooks_result:
  "mergeBooks bs data =
     (if JNull \<in> set bs \<or> JNull \<in> set data then Inl TypeError
      else Inr (bs @ filter (\<lambda>d. \<forall>b\<in>set bs. \<not> sameValueZero (field b ''id'') (field d ''id''))
                       data))"
proof (cases "JNull \<in> set bs")
  case True
  then show ?thesis by (simp add: mergeBooks_def mapE_id_null)
next
  case nb: False
  then have ids: "mapE (\<lambda>b. getProp (Some b) ''id'') bs = Inr (map (\<lambda>b. field b ''id'') bs)"
    by (intro mapE_total) (simp add: getProp_field_mem)
  show ?thesis
  proof (cases "JNull \<in> set data")
    case True
    with nb show ?thesis by (simp add: mergeBooks_def ids filterE_id_null)
  next
    case nd: False
    then have "filterE (\<lambda>b. bindE (getProp (Some b) ''id'') (\<lambda>v.
                 Inr (\<not> list_ex (\<lambda>u. sameValueZero u v) (map (\<lambda>b. field b ''id'') bs)))) data
               = Inr (filter (\<lambda>d. \<forall>b\<in>set bs. \<not> sameValueZero (field b ''id'') (field d ''id''))
                        data)"
      by (intro filterE_total) (simp add: getProp_field_mem list_ex_sameValueZero)
    with nb nd show ?thesis by (simp add: mergeBooks_def ids)
  qed
qed

lemma doImport_array:
  assumes "importSource P file textarea = Some src" and "JSON_parse P src = Some (JArr data)"
  shows "doImport P file textarea replace s =
           (if replace then (saveBooks P (s\<lparr>books := data\<rparr>), Imported (length data))
            else (case mergeBooks (books s) data of
                    Inl e \<Rightarrow> (s, ImportFailed)
                  | Inr bs \<Rightarrow> (saveBooks P (s\<lparr>books := bs\<rparr>), Imported (length data))))"
  using assms by (simp add: doImport_def)

text \<open>
  C3. When the imported text parses to an array: in merge mode the collection afterwards
  is the old collection, unchanged and in place, followed by imported books only, none
  of which has the id of a held book (ids compared as the Set of existing ids compares
  them; equal strings are equal); if no element is \<^verbatim>\<open>null\<close>, exactly the imported books
  with no such id are appended, and the result is what is saved. In replace mode the
  array \<^verbatim>\<open>[]\<close> leaves an empty collection, and the stored record is its serialisation.
\<close>

theorem import_merge_skips_existing:
  assumes "importSource P file textarea = Some src"
      and "JSON_parse P src = Some (JArr data)"
  shows "(\<exists>new. books (fst (doImport P file textarea False s)) = books s @ new \<and>
            (\<forall>d\<in>set new. d \<in> set data \<and>
               (\<forall>b\<in>set (books s). \<not> sameValueZero (field b ''id'') (field d ''id'')))) \<and>
         (JNull \<notin> set (books s) \<and> JNull \<notin> set data \<longrightarrow>
            books (fst (doImport P file textarea False s)) =
              books s @ filter (\<lambda>d. \<forall>b\<in>set (books s).
                                  \<not> sameValueZero (field b ''id'') (field d ''id'')) data \<and>
            storage (fst (doImport P file textarea False s)) STORAGE_KEY =
              Some (JSON_stringify P (JArr (books (fst (doImport P file textarea False s)))))) \<and>
         (data = [] \<longrightarrow>
            books (fst (doImport P file textarea True s)) = [] \<and>
            storage (fst (doImport P file textarea True s)) STORAGE_KEY =
              Some (JSON_stringify P (JArr [])))"
proof (intro conjI impI)
  let ?keep = "\<lambda>d. \<forall>b\<in>set (books s). \<not> sameValueZero (field b ''id'') (field d ''id'')"
  show "\<exists>new. books (fst (doImport P file textarea False s)) = books s @ new \<and>
          (\<forall>d\<in>set new. d \<in> set data \<and> ?keep d)"
  proof (cases "JNull \<in> set (books s) \<or> JNull \<in> set data")
    case True
    then have "books (fst (doImport P file textarea False s)) = books s @ []"
      by (simp add: doImport_array [OF assms] mergeBooks_result)
    then show ?thesis by (intro exI [of _ "[]"]) simp
  next
    case False
    then have "books (fst (doImport P file textarea False s)) = books s @ filter ?keep data"
      by (simp add: doImport_array [OF assms] mergeBooks_result)
    then show ?thesis by (intro exI [of _ "filter ?keep data"]) simp
  qed
next
  assume "JNull \<notin> set (books s) \<and> JNull \<notin> set data"
  then show "books (fst (doImport P file textarea False s)) =
      books s @ filter (\<lambda>d. \<forall>b\<in>set (books s). \<not> sameValueZero (field b ''id'') (field d ''id''))
                  data"
    by (simp add: doImport_array [OF assms] mergeBooks_result)
next
  assume "JNull \<notin> set (books s) \<and> JNull \<notin> set data"
  then show "storage (fst (doImport P file textarea False s)) STORAGE_KEY =
      Some (JSON_stringify P (JArr (books (fst (doImport P file textarea False s)))))"
    by (simp add: doImport_array [OF assms] mergeBooks_result)
next
  assume "data = []"
  then show "books (fst (doImport P file textarea True s)) = []"
    by (simp add: doImport_array [OF assms])
next
  assume "data = []"
  then show "storage (fst (doImport P file textarea True s)) STORAGE_KEY =
      Some (JSON_stringify P (JArr []))"
    by (simp add: doImport_array [OF assms])
qed

theorem import_merge_skips_existing_witness:
  "importSource examplePlatform None
      ''[{\"id\":\"b1\",\"status\":\"wishlist\"},{\"id\":\"b3\",\"title\":\"Dune\",\"author\":\"Frank Herbert\"}]''
     = Some ''[{\"id\":\"b1\",\"status\":\"wishlist\"},{\"id\":\"b3\",\"title\":\"Dune\",\"author\":\"Frank Herbert\"}]'' \<and>
   JSON_parse examplePlatform
      ''[{\"id\":\"b1\",\"status\":\"wishlist\"},{\"id\":\"b3\",\"title\":\"Dune\",\"author\":\"Frank Herbert\"}]''
     = Some (JArr exampleImport) \<and>
   books (fst (doImport examplePlatform None
      ''[{\"id\":\"b1\",\"status\":\"wishlist\"},{\"id\":\"b3\",\"title\":\"Dune\",\"author\":\"Frank Herbert\"}]''
      False exampleState)) = [exampleB1, exampleB2, exampleB3] \<and>
   importSource examplePlatform None ''[]'' = Some ''[]'' \<and>
   JSON_parse examplePlatform ''[]'' = Some (JArr []) \<and>
   books (fst (doImport examplePlatform None ''[]'' True exampleState)) = [] \<and>
   storage (fst (doImport examplePlatform None ''[]'' True exampleState)) STORAGE_KEY
     = Some (JSON_stringify examplePlatform (JArr []))"
proof -
  let ?doc = "''[{\"id\":\"b1\",\"status\":\"wishlist\"},{\"id\":\"b3\",\"title\":\"Dune\",\"author\":\"Frank Herbert\"}]''"
  have src: "importSource examplePlatform None ?doc = Some ?doc"
    by code_simp
  have parsed: "JSON_parse examplePlatform ?doc = Some (JArr exampleImport)"
    by code_simp
  have nonull: "JNull \<notin> set (books exampleState) \<and> JNull \<notin> set exampleImport"
    by (simp add: exampleState_def exampleImport_def exampleB1_def exampleB2_def exampleB3_def)
  have kept: "filter (\<lambda>d. \<forall>b\<in>set (books exampleState).
                 \<not> sameValueZero (field b ''id'') (field d ''id'')) exampleImport = [exampleB3]"
    by (simp add: exampleState_def exampleImport_def exampleB1_def exampleB2_def exampleB3_def
          sameValueZero_def field_def)
  note merge = import_merge_skips_existing [OF src parsed, of exampleState,
      THEN conjunct2, THEN conjunct1, rule_format, OF nonull, THEN conjunct1]
  have merged: "books (fst (doImport examplePlatform None ?doc False exampleState))
                  = [exampleB1, exampleB2, exampleB3]"
    unfolding merge kept by (simp add: exampleState_def)
  have src0: "importSource examplePlatform None ''[]'' = Some ''[]''"
    by code_simp
  have parsed0: "JSON_parse examplePlatform ''[]'' = Some (JArr [])"
    by code_simp
  note repl = import_merge_skips_existing [OF src0 parsed0, of exampleState,
      THEN conjunct2, THEN conjunct2, rule_format, OF refl]
  from src parsed merged src0 parsed0 repl [THEN conjunct1] repl [THEN conjunct2] show ?thesis
    by - (intro conjI, assumption+)
qed



section \<open>Filtering: proofs\<close>

lemma lowerIncludes_str [simp]:
  "lowerIncludes P (Some (JStr s)) q = Inr (sublist q (toLowerCase P s))"
  by (simp add: lowerIncludes_def)

lemma isStrVal_iff: "isStrVal v \<longleftrightarrow> (\<exists>s. v = Some (JStr s))"
  by (auto simp: isStrVal_def split: option.splits json.splits)

lemma passesQuery_spec:
  assumes "book \<noteq> JNull"
      and "query \<noteq> [] \<longrightarrow> isStrVal (field book ''title'') \<and> isStrVal (field book ''author'')"
  shows "passesQuery P query book =
           Inr (query = [] \<or>
                (\<exists>t. field book ''title'' = Some (JStr t) \<and> sublist query (toLowerCase P t)) \<or>
                (\<exists>a. field book ''author'' = Some (JStr a) \<and> sublist query (toLowerCase P a)))"
proof (cases "query = []")
  case True
  then show ?thesis by (simp add: passesQuery_def)
next
  case False
  with assms(2) obtain t a where
    ta: "field book ''title'' = Some (JStr t)" "field book ''author'' = Some (JStr a)"
    by (auto simp: isStrVal_iff)
  with False assms(1) show ?thesis
    by (simp add: passesQuery_def getProp_field)
qed

lemma passesExact_spec:
  assumes "book \<noteq> JNull" and "key \<noteq> ''length''"
  shows "passesExact want key book = Inr (want = [] \<or> field book key = Some (JStr want))"
  using assms by (simp add: passesExact_def getProp_field eqStr_def)

lemma passesRatingNone_spec:
  assumes "book \<noteq> JNull"
  shows "passesRatingNone r book =
           Inr (r = ''none'' \<longrightarrow> field book ''rating'' = None \<or> field book ''rating'' = Some JNull)"
  using assms by (simp add: passesRatingNone_def getProp_field)

lemma passesRatingValue_spec:
  assumes "book \<noteq> JNull"
  shows "passesRatingValue P r book =
           Inr (r \<noteq> [] \<and> r \<noteq> ''none'' \<longrightarrow>
                  (\<exists>n. parseInt P r = Some n \<and> field book ''rating'' = Some (JNum n)))"
  using assms by (auto simp: passesRatingValue_def getProp_field split: option.splits)

text \<open>The callback of the filter computes the conjunction the specification describes,
  for a book that is not \<^verbatim>\<open>null\<close> and, when there is a query, has a string title and
  author.\<close>

lemma matchesFilter_spec:
  assumes "book \<noteq> JNull"
      and "query \<noteq> [] \<longrightarrow> isStrVal (field book ''title'') \<and> isStrVal (field book ''author'')"
  shows "matchesFilter P query fs book = Inr (specMatches P query fs book)"
proof -
  have exact: "passesExact want ''genre'' book = Inr (want = [] \<or> field book ''genre'' = Some (JStr want))"
    "passesExact want ''status'' book = Inr (want = [] \<or> field book ''status'' = Some (JStr want))"
    "passesExact want ''format'' book = Inr (want = [] \<or> field book ''format'' = Some (JStr want))"
    for want
    using assms(1) by (simp_all add: passesExact_spec)
  show ?thesis
    unfolding matchesFilter_def passesQuery_spec [OF assms] exact
      passesRatingNone_spec [OF assms(1)] passesRatingValue_spec [OF assms(1)] specMatches_def
    by auto
qed

lemma rating_none_scenario:
  assumes "trim P (toLowerCase P searchInput) = []"
  shows "getFilteredBooks P searchInput (ratingNoneOnly key)
           [JObj [(''rating'', JNull)], JObj [(''rating'', JNum 3)]]
         = Inr [JObj [(''rating'', JNull)]]"
  using assms
  by (simp add: getFilteredBooks_def matchesFilter_def passesQuery_def passesExact_def
      passesRatingNone_def passesRatingValue_def ratingNoneOnly_def sortBooks_def)

text \<open>
  C7. For books that are not \<^verbatim>\<open>null\<close> and, when a query is given, have a string title
  and author, the filter keeps exactly the books that satisfy all active predicates: the
  lower-cased title or author contains the (lower-cased, trimmed) query; genre, status and
  format are equal to the chosen values; with rating \<^verbatim>\<open>none\<close> the rating is unset (null or
  missing), with any other rating value it is the integer \<^verbatim>\<open>parseInt\<close> reads from it. With
  no search text, the filter \<^verbatim>\<open>{rating: "none"}\<close> applied to the books
  \<^verbatim>\<open>[{rating: null}, {rating: 3}]\<close> returns the first book only.
\<close>

theorem filter_is_conjunction_of_predicates:
  assumes "\<forall>b\<in>set bs. b \<noteq> JNull \<and>
             (query \<noteq> [] \<longrightarrow> isStrVal (field b ''title'') \<and> isStrVal (field b ''author''))"
  shows "filterE (matchesFilter P query fs) bs = Inr (filter (specMatches P query fs) bs) \<and>
         (trim P (toLowerCase P searchInput) = [] \<longrightarrow>
            getFilteredBooks P searchInput (ratingNoneOnly key)
              [JObj [(''rating'', JNull)], JObj [(''rating'', JNum 3)]]
            = Inr [JObj [(''rating'', JNull)]])"
proof (intro conjI impI)
  show "filterE (matchesFilter P query fs) bs = Inr (filter (specMatches P query fs) bs)"
    using assms by (intro filterE_total) (simp add: matchesFilter_spec)
next
  assume "trim P (toLowerCase P searchInput) = []"
  then show "getFilteredBooks P searchInput (ratingNoneOnly key)
              [JObj [(''rating'', JNull)], JObj [(''rating'', JNum 3)]]
            = Inr [JObj [(''rating'', JNull)]]"
    by (rule rating_none_scenario)
qed

theorem filter_is_conjunction_of_predicates_witness:
  "exampleB3 \<noteq> JNull \<and> isStrVal (field exampleB3 ''title'') \<and>
   isStrVal (field exampleB3 ''author'') \<and>
   filterE (matchesFilter examplePlatform ''dune'' noFilter) [exampleB3, exampleB3]
     = Inr [exampleB3, exampleB3] \<and>
   trim examplePlatform (toLowerCase examplePlatform '' '') = [] \<and>
   getFilteredBooks examplePlatform '' '' (ratingNoneOnly ''dateAdded'')
     [JObj [(''rating'', JNull)], JObj [(''rating'', JNum 3)]] = Inr [JObj [(''rating'', JNull)]]"
proof -
  have nn: "exampleB3 \<noteq> JNull"
    by (simp add: exampleB3_def)
  have st: "isStrVal (field exampleB3 ''title'')" "isStrVal (field exampleB3 ''author'')"
    by (simp_all add: exampleB3_def field_def isStrVal_def)
  have wf: "\<forall>b\<in>set [exampleB3, exampleB3]. b \<noteq> JNull \<and>
              (''dune'' \<noteq> [] \<longrightarrow> isStrVal (field b ''title'') \<and> isStrVal (field b ''author''))"
    using nn st by simp
  have inTitle: "sublist ''dune'' (toLowerCase examplePlatform ''Dune'')"
    by code_simp
  have ok: "specMatches examplePlatform ''dune'' noFilter exampleB3"
    using inTitle by (simp add: specMatches_def noFilter_def exampleB3_def field_def)
  have noQuery: "trim examplePlatform (toLowerCase examplePlatform '' '') = []"
    by code_simp
  note inst = filter_is_conjunction_of_predicates [OF wf, of examplePlatform noFilter "'' ''"
      "''dateAdded''"]
  have kept: "filterE (matchesFilter examplePlatform ''dune'' noFilter) [exampleB3, exampleB3]
                = Inr [exampleB3, exampleB3]"
    unfolding inst [THEN conjunct1] using ok by simp
  note scenario = inst [THEN conjunct2, rule_format, OF noQuery]
  from nn st kept noQuery scenario show ?thesis
    by - (intro conjI, assumption+)
qed

section \<open>Add, edit, delete, change of status: proofs\<close>

lemma idIs_result:
  "idIs i b = (if b = JNull then Inl TypeError else Inr (field b ''id'' = Some (JStr i)))"
  by (simp add: idIs_def getProp_field eqStr_def)

lemma firstWithId_Nil [simp]: "\<not> firstWithId i [] n"
  by (simp add: firstWithId_def)

lemma firstWithId_Cons_0:
  "firstWithId i (b # bs) 0 \<longleftrightarrow> field b ''id'' = Some (JStr i)"
  by (simp add: firstWithId_def)

lemma firstWithId_Cons_Suc:
  "firstWithId i (b # bs) (Suc m) \<longleftrightarrow>
     b \<noteq> JNull \<and> field b ''id'' \<noteq> Some (JStr i) \<and> firstWithId i bs m"
proof -
  have "(\<forall>k<Suc m. P k) \<longleftrightarrow> P 0 \<and> (\<forall>k<m. P (Suc k))" for P
    by (auto simp: less_Suc_eq_0_disj)
  then show ?thesis
    by (auto simp: firstWithId_def)
qed

lemma field_id_not_null: "field b ''id'' = Some v \<Longrightarrow> b \<noteq> JNull"
  by (auto simp: field_def)

lemma findE_first:
  "firstWithId i bs n \<Longrightarrow> findE (idIs i) bs = Inr (Some (bs ! n))"
proof (induction bs arbitrary: n)
  case Nil
  then show ?case by simp
next
  case (Cons b bs)
  show ?case
  proof (cases n)
    case 0
    with Cons.prems show ?thesis
      by (auto simp: firstWithId_Cons_0 idIs_result field_id_not_null)
  next
    case (Suc m)
    with Cons.prems Cons.IH [of m] show ?thesis
      by (simp add: firstWithId_Cons_Suc idIs_result)
  qed
qed

lemma findIndexE_first:
  "firstWithId i bs n \<Longrightarrow> findIndexE (idIs i) bs = Inr (Some n)"
proof (induction bs arbitrary: n)
  case Nil
  then show ?case by simp
next
  case (Cons b bs)
  show ?case
  proof (cases n)
    case 0
    with Cons.prems show ?thesis
      by (auto simp: firstWithId_Cons_0 idIs_result field_id_not_null)
  next
    case (Suc m)
    with Cons.prems Cons.IH [of m] show ?thesis
      by (simp add: firstWithId_Cons_Suc idIs_result)
  qed
qed

lemma findE_none:
  "JNull \<notin> set bs \<Longrightarrow> \<forall>b\<in>set bs. field b ''id'' \<noteq> Some (JStr i) \<Longrightarrow>
   findE (idIs i) bs = Inr None"
  by (induction bs) (auto simp: idIs_result)

lemma findIndexE_none:
  "JNull \<notin> set bs \<Longrightarrow> \<forall>b\<in>set bs. field b ''id'' \<noteq> Some (JStr i) \<Longrightarrow>
   findIndexE (idIs i) bs = Inr None"
  by (induction bs) (auto simp: idIs_result)

lemma firstWithId_exists:
  "JNull \<notin> set bs \<Longrightarrow> \<exists>b\<in>set bs. field b ''id'' = Some (JStr i) \<Longrightarrow> \<exists>n. firstWithId i bs n"
proof (induction bs)
  case Nil
  then show ?case by simp
next
  case (Cons b bs)
  show ?case
  proof (cases "field b ''id'' = Some (JStr i)")
    case True
    then have "firstWithId i (b # bs) 0" by (simp add: firstWithId_Cons_0)
    then show ?thesis ..
  next
    case False
    with Cons obtain m where "firstWithId i bs m" by auto
    with False Cons.prems have "firstWithId i (b # bs) (Suc m)"
      by (auto simp: firstWithId_Cons_Suc)
    then show ?thesis ..
  qed
qed

lemma field_bookData_id [simp]: "field (bookData P f i d) ''id'' = Some (JStr i)"
  by (simp add: bookData_def field_def)

lemma field_bookData_dateAdded [simp]: "field (bookData P f i d) ''dateAdded'' = Some d"
  by (simp add: bookData_def field_def)

lemma keptDateAdded_first:
  assumes "firstWithId i bs n"
  shows "keptDateAdded i today bs =
           Inr (case field (bs ! n) ''dateAdded'' of
                  None \<Rightarrow> JStr today
                | Some v \<Rightarrow> if truthy (Some v) then v else JStr today)"
proof -
  from assms have "field (bs ! n) ''id'' = Some (JStr i)"
    by (simp add: firstWithId_def)
  then have "bs ! n \<noteq> JNull"
    by (rule field_id_not_null)
  then show ?thesis
    by (simp add: keptDateAdded_def findE_first [OF assms] getProp_field split: option.splits)
qed

text \<open>An edit replaces the first book with the id by the form's data.\<close>

lemma handleFormSubmit_edit:
  assumes "firstWithId i bs n" and "formBookId f = i" and "i \<noteq> []" and "books s = bs"
  shows "handleFormSubmit P g today f s =
           Inr (saveBooks P (s\<lparr>books := bs[n := bookData P f i
                  (case field (bs ! n) ''dateAdded'' of
                     None \<Rightarrow> JStr today
                   | Some v \<Rightarrow> if truthy (Some v) then v else JStr today)]\<rparr>))"
  using assms(2-4)
  by (simp add: handleFormSubmit_def keptDateAdded_first [OF assms(1)]
      findIndexE_first [OF assms(1)])

lemma field_setProp_status:
  "field (JObj (AList.update ''status'' v kvs)) k =
     (if k = ''status'' then Some v else field (JObj kvs) k)"
  by (simp add: field_def update_conv')

text \<open>A change of status assigns the status property of the first book with the id.\<close>

lemma changeStatus_first:
  assumes "firstWithId i bs n" and "books s = bs" and "bs ! n = JObj kvs"
  shows "changeStatus P i st s =
           Inr (saveBooks P (s\<lparr>books := bs[n := JObj (AList.update ''status'' (JStr st) kvs)]\<rparr>))"
  using assms(2,3)
  by (simp add: changeStatus_def findE_first [OF assms(1)] findIndexE_first [OF assms(1)]
      setProp_def)

lemma firstWithId_object:
  assumes "firstWithId i bs n"
  obtains kvs where "bs ! n = JObj kvs"
proof -
  from assms have "field (bs ! n) ''id'' = Some (JStr i)"
    by (simp add: firstWithId_def)
  then show ?thesis
    using that by (cases "bs ! n") (simp_all add: field_def)
qed

text \<open>
  C8, as the code has it. Let the book at position \<open>n\<close> be the first with id \<open>i\<close>.
  Editing it replaces that position only, by a book with the same id whose creation date
  is the original's when that is truthy (a non-empty string, as an added book has), and
  today's date when the original has none or an empty one. A change of status replaces
  that position only, by the same object with its status property set: every other property
  keeps its value.
\<close>

theorem edit_keeps_creation_date:
  assumes "firstWithId i (books s) n"
  shows "(formBookId f = i \<and> i \<noteq> [] \<longrightarrow>
            (\<exists>s' b'. handleFormSubmit P g today f s = Inr s' \<and>
               books s' = (books s)[n := b'] \<and>
               field b' ''id'' = Some (JStr i) \<and>
               field b' ''dateAdded'' =
                 (if truthy (field (books s ! n) ''dateAdded'')
                  then field (books s ! n) ''dateAdded'' else Some (JStr today)))) \<and>
         (\<exists>s' kvs. changeStatus P i st s = Inr s' \<and>
            books s ! n = JObj kvs \<and>
            books s' = (books s)[n := JObj (AList.update ''status'' (JStr st) kvs)] \<and>
            field (books s' ! n) ''status'' = Some (JStr st) \<and>
            (\<forall>k. k \<noteq> ''status'' \<longrightarrow> field (books s' ! n) k = field (books s ! n) k))"
proof (intro conjI impI)
  assume edit: "formBookId f = i \<and> i \<noteq> []"
  let ?d = "case field (books s ! n) ''dateAdded'' of
              None \<Rightarrow> JStr today
            | Some v \<Rightarrow> if truthy (Some v) then v else JStr today"
  let ?b = "bookData P f i ?d"
  from edit have run: "handleFormSubmit P g today f s =
      Inr (saveBooks P (s\<lparr>books := (books s)[n := ?b]\<rparr>))"
    by (intro handleFormSubmit_edit [OF assms]) simp_all
  have date: "field ?b ''dateAdded'' =
      (if truthy (field (books s ! n) ''dateAdded'')
       then field (books s ! n) ''dateAdded'' else Some (JStr today))"
    by (simp split: option.splits)
  show "\<exists>s' b'. handleFormSubmit P g today f s = Inr s' \<and>
          books s' = (books s)[n := b'] \<and> field b' ''id'' = Some (JStr i) \<and>
          field b' ''dateAdded'' =
            (if truthy (field (books s ! n) ''dateAdded'')
             then field (books s ! n) ''dateAdded'' else Some (JStr today))"
    using run date
    by (intro exI [of _ "saveBooks P (s\<lparr>books := (books s)[n := ?b]\<rparr>)"] exI [of _ ?b]) simp
next
  from assms obtain kvs where obj: "books s ! n = JObj kvs"
    by (rule firstWithId_object)
  from assms have n: "n < length (books s)"
    by (simp add: firstWithId_def)
  let ?b = "JObj (AList.update ''status'' (JStr st) kvs)"
  have run: "changeStatus P i st s = Inr (saveBooks P (s\<lparr>books := (books s)[n := ?b]\<rparr>))"
    by (rule changeStatus_first [OF assms refl obj])
  show "\<exists>s' kvs. changeStatus P i st s = Inr s' \<and> books s ! n = JObj kvs \<and>
          books s' = (books s)[n := JObj (AList.update ''status'' (JStr st) kvs)] \<and>
          field (books s' ! n) ''status'' = Some (JStr st) \<and>
          (\<forall>k. k \<noteq> ''status'' \<longrightarrow> field (books s' ! n) k = field (books s ! n) k)"
    using run obj n
    by (intro exI [of _ "saveBooks P (s\<lparr>books := (books s)[n := ?b]\<rparr>)"] exI [of _ kvs])
       (simp add: field_setProp_status)
qed

theorem edit_keeps_creation_date_witness:
  "firstWithId ''b3'' (books \<lparr>books = [exampleB1, exampleDated], storage = Map.empty\<rparr>) 1 \<and>
   formBookId exampleEdit = ''b3'' \<and>
   (\<exists>s' b'. handleFormSubmit examplePlatform ''b9'' ''2026-02-17'' exampleEdit
               \<lparr>books = [exampleB1, exampleDated], storage = Map.empty\<rparr> = Inr s' \<and>
      books s' = [exampleB1, b'] \<and> field b' ''id'' = Some (JStr ''b3'') \<and>
      field b' ''dateAdded'' = Some (JStr ''2025-01-05'')) \<and>
   (\<exists>s'. changeStatus examplePlatform ''b3'' ''reading''
            \<lparr>books = [exampleB1, exampleDated], storage = Map.empty\<rparr> = Inr s' \<and>
      field (books s' ! 1) ''status'' = Some (JStr ''reading'') \<and>
      field (books s' ! 1) ''dateAdded'' = Some (JStr ''2025-01-05''))"
proof -
  let ?s = "\<lparr>books = [exampleB1, exampleDated], storage = Map.empty\<rparr>"
  have first: "firstWithId ''b3'' (books ?s) 1"
    unfolding One_nat_def
    by (simp add: firstWithId_Cons_Suc firstWithId_Cons_0 exampleB1_def exampleDated_def field_def)
  have form: "formBookId exampleEdit = ''b3''"
    by (simp add: exampleEdit_def)
  have date: "field (books ?s ! 1) ''dateAdded'' = Some (JStr ''2025-01-05'')"
    by (simp add: exampleDated_def field_def)
  note inst = edit_keeps_creation_date [OF first, of exampleEdit examplePlatform "''b9''"
      "''2026-02-17''" "''reading''"]
  from inst [THEN conjunct1] form
  obtain s' b' where e:
    "handleFormSubmit examplePlatform ''b9'' ''2026-02-17'' exampleEdit ?s = Inr s'"
    "books s' = (books ?s)[1 := b']" "field b' ''id'' = Some (JStr ''b3'')"
    "field b' ''dateAdded'' = (if truthy (field (books ?s ! 1) ''dateAdded'')
        then field (books ?s ! 1) ''dateAdded'' else Some (JStr ''2026-02-17''))"
    by auto
  from e(4) have "field b' ''dateAdded'' = Some (JStr ''2025-01-05'')"
    unfolding date by simp
  with e(1-3) have edit: "\<exists>s' b'. handleFormSubmit examplePlatform ''b9'' ''2026-02-17''
      exampleEdit ?s = Inr s' \<and> books s' = [exampleB1, b'] \<and>
      field b' ''id'' = Some (JStr ''b3'') \<and> field b' ''dateAdded'' = Some (JStr ''2025-01-05'')"
    by (intro exI [of _ s'] exI [of _ b']) simp
  from inst [THEN conjunct2]
  obtain t' kvs where c:
    "changeStatus examplePlatform ''b3'' ''reading'' ?s = Inr t'"
    "field (books t' ! 1) ''status'' = Some (JStr ''reading'')"
    "\<forall>k. k \<noteq> ''status'' \<longrightarrow> field (books t' ! 1) k = field (books ?s ! 1) k"
    by auto
  from c(3) have "field (books t' ! 1) ''dateAdded'' = field (books ?s ! 1) ''dateAdded''"
    by simp
  with c(1,2) date have change: "\<exists>s'. changeStatus examplePlatform ''b3'' ''reading'' ?s = Inr s' \<and>
      field (books s' ! 1) ''status'' = Some (JStr ''reading'') \<and>
      field (books s' ! 1) ''dateAdded'' = Some (JStr ''2025-01-05'')"
    by (intro exI [of _ t']) simp
  from first form edit change show ?thesis
    by - (intro conjI, assumption+)
qed

text \<open>A book imported without a creation date gets one when it is edited: the
  replacement's creation date is not the original's.\<close>

theorem edit_assigns_missing_creation_date:
  "field exampleB3 ''dateAdded'' = None \<and>
   map_option (map (\<lambda>b. field b ''dateAdded''))
     (booksOf (handleFormSubmit examplePlatform ''b9'' ''2026-02-17'' exampleEdit
                 \<lparr>books = [exampleB3], storage = Map.empty\<rparr>))
     = Some [Some (JStr ''2026-02-17'')]"
proof -
  have first: "firstWithId ''b3'' [exampleB3] 0"
    by (simp add: firstWithId_Cons_0 exampleB3_def field_def)
  have none: "field exampleB3 ''dateAdded'' = None"
    by (simp add: exampleB3_def field_def)
  have form: "formBookId exampleEdit = ''b3''"
    by (simp add: exampleEdit_def)
  have "handleFormSubmit examplePlatform ''b9'' ''2026-02-17'' exampleEdit
          \<lparr>books = [exampleB3], storage = Map.empty\<rparr>
        = Inr (saveBooks examplePlatform (\<lparr>books = [exampleB3], storage = Map.empty\<rparr>
            \<lparr>books := [exampleB3][0 := bookData examplePlatform exampleEdit ''b3''
                                      (JStr ''2026-02-17'')]\<rparr>))"
    using handleFormSubmit_edit [OF first form, of "\<lparr>books = [exampleB3], storage = Map.empty\<rparr>"
        examplePlatform "''b9''" "''2026-02-17''"] none
    by simp
  then show ?thesis
    using none by (simp add: booksOf_def)
qed

section \<open>Uniqueness of ids: proofs\<close>

lemma hasStringId_iff: "hasStringId b \<longleftrightarrow> (\<exists>i. field b ''id'' = Some (JStr i))"
  by (auto simp: hasStringId_def split: option.splits json.splits)

lemma uniqueIds_no_null: "uniqueIds bs \<Longrightarrow> JNull \<notin> set bs"
  by (auto simp: uniqueIds_def list_all_iff hasStringId_iff field_def)

lemma uniqueIds_update:
  assumes "uniqueIds bs" and "n < length bs" and "field b' ''id'' = field (bs ! n) ''id''"
  shows "uniqueIds (bs[n := b'])"
proof -
  have "map (\<lambda>b. field b ''id'') (bs[n := b']) = map (\<lambda>b. field b ''id'') bs"
    using assms(2,3) by (simp add: map_update list_update_same_conv)
  moreover from assms have "hasStringId b'"
    by (auto simp: uniqueIds_def list_all_iff hasStringId_iff)
  then have "list_all hasStringId (bs[n := b'])"
    using assms(1) by (auto simp: uniqueIds_def list_all_iff dest: set_update_subset_insert [THEN subsetD])
  ultimately show ?thesis
    using assms(1) by (simp add: uniqueIds_def)
qed

lemma uniqueIds_filter: "uniqueIds bs \<Longrightarrow> uniqueIds (filter p bs)"
  by (auto simp: uniqueIds_def list_all_iff distinct_map_filter)

lemma uniqueIds_snoc:
  assumes "uniqueIds bs" and "field b' ''id'' = Some (JStr g)"
      and "\<forall>b\<in>set bs. field b ''id'' \<noteq> Some (JStr g)"
  shows "uniqueIds (bs @ [b'])"
  using assms by (auto simp: uniqueIds_def hasStringId_iff)

lemma sameValueZero_string: "sameValueZero (Some (JStr x)) v \<longleftrightarrow> v = Some (JStr x)"
  by (auto simp: sameValueZero_def)

lemma uniqueIds_merge:
  assumes "uniqueIds bs" and "uniqueIds data"
  shows "uniqueIds (bs @ filter (\<lambda>d. \<forall>b\<in>set bs. \<not> sameValueZero (field b ''id'') (field d ''id''))
                          data)"
proof -
  let ?keep = "\<lambda>d. \<forall>b\<in>set bs. \<not> sameValueZero (field b ''id'') (field d ''id'')"
  have new: "uniqueIds (filter ?keep data)"
    using assms(2) by (rule uniqueIds_filter)
  have "field b ''id'' \<noteq> field d ''id''" if "b \<in> set bs" "d \<in> set (filter ?keep data)" for b d
  proof -
    from assms(1) that(1) obtain x where x: "field b ''id'' = Some (JStr x)"
      by (auto simp: uniqueIds_def list_all_iff hasStringId_iff)
    from that have "\<not> sameValueZero (field b ''id'') (field d ''id'')"
      by simp
    with x show ?thesis
      by (auto simp: sameValueZero_string)
  qed
  then have "(\<lambda>b. field b ''id'') ` set bs \<inter> (\<lambda>b. field b ''id'') ` set (filter ?keep data) = {}"
    by blast
  with assms(1) new show ?thesis
    by (simp add: uniqueIds_def)
qed

lemma handleFormSubmit_add:
  "formBookId f = [] \<Longrightarrow>
   handleFormSubmit P g today f s =
     Inr (saveBooks P (s\<lparr>books := books s @ [bookData P f g (JStr today)]\<rparr>))"
  by (simp add: handleFormSubmit_def)

lemma handleFormSubmit_edit_absent:
  assumes "JNull \<notin> set (books s)" and "formBookId f \<noteq> []"
      and "\<forall>b\<in>set (books s). field b ''id'' \<noteq> Some (JStr (formBookId f))"
  shows "handleFormSubmit P g today f s = Inr (saveBooks P s)"
  using assms(2)
  by (simp add: handleFormSubmit_def keptDateAdded_def findE_none [OF assms(1,3)]
      findIndexE_none [OF assms(1,3)])

lemma filterE_other_ids:
  assumes "JNull \<notin> set bs"
  shows "filterE (\<lambda>b. bindE (idIs i b) (\<lambda>same. Inr (\<not> same))) bs
           = Inr (filter (\<lambda>b. field b ''id'' \<noteq> Some (JStr i)) bs)"
  using assms by (intro filterE_total) (auto simp: idIs_result)

text \<open>Deletion removes every book with the id; without such a book nothing changes.\<close>

lemma deleteBook_result:
  assumes "JNull \<notin> set (books s)"
  shows "deleteBook P i s =
           Inr (if \<exists>b\<in>set (books s). field b ''id'' = Some (JStr i)
                then saveBooks P (s\<lparr>books := filter (\<lambda>b. field b ''id'' \<noteq> Some (JStr i)) (books s)\<rparr>)
                else s)"
proof (cases "\<exists>b\<in>set (books s). field b ''id'' = Some (JStr i)")
  case True
  with assms obtain n where "firstWithId i (books s) n"
    using firstWithId_exists by blast
  with True show ?thesis
    by (simp add: deleteBook_def findE_first filterE_other_ids [OF assms])
next
  case False
  then show ?thesis
    by (simp add: deleteBook_def findE_none [OF assms])
qed

lemma edit_preserves_uniqueIds:
  assumes "uniqueIds (books s)" and "formBookId f \<noteq> []"
  shows "\<exists>s'. handleFormSubmit P g today f s = Inr s' \<and> uniqueIds (books s')"
proof (cases "\<exists>b\<in>set (books s). field b ''id'' = Some (JStr (formBookId f))")
  case True
  with assms(1) obtain n where first: "firstWithId (formBookId f) (books s) n"
    using firstWithId_exists uniqueIds_no_null by blast
  then have n: "n < length (books s)" "field (books s ! n) ''id'' = Some (JStr (formBookId f))"
    by (simp_all add: firstWithId_def)
  show ?thesis
    unfolding handleFormSubmit_edit [OF first refl assms(2) refl]
    using assms(1) n by (simp add: uniqueIds_update)
next
  case False
  with assms show ?thesis
    by (simp add: handleFormSubmit_edit_absent uniqueIds_no_null)
qed

lemma changeStatus_preserves_uniqueIds:
  assumes "uniqueIds (books s)"
  shows "\<exists>s'. changeStatus P i st s = Inr s' \<and> uniqueIds (books s')"
proof (cases "\<exists>b\<in>set (books s). field b ''id'' = Some (JStr i)")
  case True
  with assms obtain n where first: "firstWithId i (books s) n"
    using firstWithId_exists uniqueIds_no_null by blast
  then have n: "n < length (books s)"
    by (simp add: firstWithId_def)
  from first obtain kvs where obj: "books s ! n = JObj kvs"
    by (rule firstWithId_object)
  show ?thesis
    unfolding changeStatus_first [OF first refl obj]
    using assms n obj by (simp add: uniqueIds_update field_setProp_status)
next
  case False
  with assms show ?thesis
    by (simp add: changeStatus_def findE_none uniqueIds_no_null)
qed

lemma import_preserves_uniqueIds:
  assumes "uniqueIds (books s)"
      and "\<forall>src data. importSource P upload textarea = Some src \<and>
             JSON_parse P src = Some (JArr data) \<longrightarrow> uniqueIds data"
  shows "uniqueIds (books (fst (doImport P upload textarea replace s)))"
proof (cases "importSource P upload textarea")
  case None
  with assms(1) show ?thesis by (simp add: doImport_def)
next
  case (Some src)
  show ?thesis
  proof (cases "JSON_parse P src")
    case None
    with Some assms(1) show ?thesis by (simp add: doImport_parse_failure)
  next
    case parsed: (Some v)
    show ?thesis
    proof (cases "isArray v")
      case False
      with Some parsed assms(1) show ?thesis by (simp add: doImport_not_array)
    next
      case True
      then obtain data where v: "v = JArr data"
        by (cases v) (simp_all add: isArray_def)
      with Some parsed assms(2) have data: "uniqueIds data" by simp
      from Some parsed v assms(1) data show ?thesis
        by (simp add: doImport_array mergeBooks_result uniqueIds_no_null uniqueIds_merge)
    qed
  qed
qed

text \<open>
  C5, as the code has it. From a collection of objects with pairwise distinct string ids,
  each operation returns and yields such a collection again: add, when the generated id
  is not the id of a held book; edit; delete; change of status; and import, in replace
  and in merge mode, when the imported array is itself a collection of objects with
  pairwise distinct string ids.
\<close>

theorem operations_preserve_unique_ids:
  assumes "uniqueIds (books s)"
  shows "(formBookId f = [] \<and> (\<forall>b\<in>set (books s). field b ''id'' \<noteq> Some (JStr g)) \<longrightarrow>
            (\<exists>s'. handleFormSubmit P g today f s = Inr s' \<and> uniqueIds (books s'))) \<and>
         (formBookId f \<noteq> [] \<longrightarrow>
            (\<exists>s'. handleFormSubmit P g today f s = Inr s' \<and> uniqueIds (books s'))) \<and>
         (\<exists>s'. deleteBook P i s = Inr s' \<and> uniqueIds (books s')) \<and>
         (\<exists>s'. changeStatus P i st s = Inr s' \<and> uniqueIds (books s')) \<and>
         ((\<forall>src data. importSource P upload textarea = Some src \<and>
              JSON_parse P src = Some (JArr data) \<longrightarrow> uniqueIds data) \<longrightarrow>
            uniqueIds (books (fst (doImport P upload textarea replace s))))"
proof (intro conjI impI)
  assume "formBookId f = [] \<and> (\<forall>b\<in>set (books s). field b ''id'' \<noteq> Some (JStr g))"
  with assms show "\<exists>s'. handleFormSubmit P g today f s = Inr s' \<and> uniqueIds (books s')"
    by (simp add: handleFormSubmit_add uniqueIds_snoc)
next
  assume "formBookId f \<noteq> []"
  with assms show "\<exists>s'. handleFormSubmit P g today f s = Inr s' \<and> uniqueIds (books s')"
    by (rule edit_preserves_uniqueIds)
next
  from assms show "\<exists>s'. deleteBook P i s = Inr s' \<and> uniqueIds (books s')"
    by (simp add: deleteBook_result uniqueIds_no_null uniqueIds_filter)
next
  from assms show "\<exists>s'. changeStatus P i st s = Inr s' \<and> uniqueIds (books s')"
    by (rule changeStatus_preserves_uniqueIds)
next
  assume "\<forall>src data. importSource P upload textarea = Some src \<and>
            JSON_parse P src = Some (JArr data) \<longrightarrow> uniqueIds data"
  with assms show "uniqueIds (books (fst (doImport P upload textarea replace s)))"
    by (rule import_preserves_uniqueIds)
qed

theorem operations_preserve_unique_ids_witness:
  "uniqueIds (books exampleState) \<and> uniqueIds exampleImport \<and>
   (\<exists>s'. handleFormSubmit examplePlatform ''b9'' ''2026-02-17''
            (exampleEdit\<lparr>formBookId := []\<rparr>) exampleState = Inr s' \<and> uniqueIds (books s')) \<and>
   (\<exists>s'. handleFormSubmit examplePlatform ''b9'' ''2026-02-17'' exampleEdit exampleState = Inr s' \<and>
          uniqueIds (books s')) \<and>
   (\<exists>s'. deleteBook examplePlatform ''b1'' exampleState = Inr s' \<and> uniqueIds (books s')) \<and>
   (\<exists>s'. changeStatus examplePlatform ''b2'' ''reading'' exampleState = Inr s' \<and>
          uniqueIds (books s')) \<and>
   uniqueIds (books (fst (doImport examplePlatform None
      ''[{\"id\":\"b1\",\"status\":\"wishlist\"},{\"id\":\"b3\",\"title\":\"Dune\",\"author\":\"Frank Herbert\"}]''
      False exampleState)))"
proof -
  let ?doc = "''[{\"id\":\"b1\",\"status\":\"wishlist\"},{\"id\":\"b3\",\"title\":\"Dune\",\"author\":\"Frank Herbert\"}]''"
  have held: "uniqueIds (books exampleState)"
    by (simp add: uniqueIds_def hasStringId_def field_def exampleState_def exampleB1_def
          exampleB2_def)
  have imported: "uniqueIds exampleImport"
    by (simp add: uniqueIds_def hasStringId_def field_def exampleImport_def exampleB3_def)
  have fresh: "formBookId (exampleEdit\<lparr>formBookId := []\<rparr>) = [] \<and>
               (\<forall>b\<in>set (books exampleState). field b ''id'' \<noteq> Some (JStr ''b9''))"
    by (simp add: field_def exampleState_def exampleB1_def exampleB2_def)
  have isEdit: "formBookId exampleEdit \<noteq> []"
    by (simp add: exampleEdit_def)
  have src: "importSource examplePlatform None ?doc = Some ?doc"
    by code_simp
  have parsed: "JSON_parse examplePlatform ?doc = Some (JArr exampleImport)"
    by code_simp
  have data: "\<forall>src data. importSource examplePlatform None ?doc = Some src \<and>
                JSON_parse examplePlatform src = Some (JArr data) \<longrightarrow> uniqueIds data"
    using imported by (simp add: src parsed)
  note add = operations_preserve_unique_ids [OF held,
      where f = "exampleEdit\<lparr>formBookId := []\<rparr>" and g = "''b9''" and P = examplePlatform
        and today = "''2026-02-17''",
      THEN conjunct1, rule_format, OF fresh]
  note inst = operations_preserve_unique_ids [OF held,
      where f = exampleEdit and g = "''b9''" and P = examplePlatform
        and today = "''2026-02-17''" and i = "''b1''" and upload = None and textarea = ?doc
        and replace = False]
  note edit = inst [THEN conjunct2, THEN conjunct1, rule_format, OF isEdit]
  note delete = inst [THEN conjunct2, THEN conjunct2, THEN conjunct1]
  have change: "\<exists>s'. changeStatus examplePlatform ''b2'' ''reading'' exampleState = Inr s' \<and>
      uniqueIds (books s')"
    by (rule operations_preserve_unique_ids [OF held, THEN conjunct2, THEN conjunct2,
          THEN conjunct2, THEN conjunct1])
  note merge = inst [THEN conjunct2, THEN conjunct2, THEN conjunct2, THEN conjunct2,
      THEN mp, OF data]
  from held imported add edit delete change merge show ?thesis
    by - (intro conjI, assumption+)
qed

text \<open>Importing an array in which two books have the same id breaks the invariant, in
  merge mode and in replace mode; so does adding a book when \<^verbatim>\<open>generateId\<close> returns an id
  that a book of the collection has.\<close>

theorem repeated_ids_break_uniqueness:
  "uniqueIds (books exampleState) \<and>
   JSON_parse examplePlatform
     ''[{\"id\":\"b3\",\"title\":\"Dune\",\"author\":\"Frank Herbert\"},{\"id\":\"b3\",\"title\":\"Emma\"}]''
     = Some (JArr exampleDuplicates) \<and>
   \<not> uniqueIds (books (fst (doImport examplePlatform None
     ''[{\"id\":\"b3\",\"title\":\"Dune\",\"author\":\"Frank Herbert\"},{\"id\":\"b3\",\"title\":\"Emma\"}]''
     False exampleState))) \<and>
   \<not> uniqueIds (books (fst (doImport examplePlatform None
     ''[{\"id\":\"b3\",\"title\":\"Dune\",\"author\":\"Frank Herbert\"},{\"id\":\"b3\",\"title\":\"Emma\"}]''
     True exampleState))) \<and>
   uniqueIds (books exampleHeld) \<and>
   (\<exists>s'. handleFormSubmit examplePlatform ''bmlq8z3k1a7f2'' ''2026-02-17''
            (exampleEdit\<lparr>formBookId := []\<rparr>) exampleHeld = Inr s' \<and>
         map (\<lambda>b. field b ''id'') (books s') =
           [Some (JStr ''b1''), Some (JStr ''bmlq8z3k1a7f2''), Some (JStr ''bmlq8z3k1a7f2'')] \<and>
         \<not> uniqueIds (books s'))"
proof -
  let ?doc = "''[{\"id\":\"b3\",\"title\":\"Dune\",\"author\":\"Frank Herbert\"},{\"id\":\"b3\",\"title\":\"Emma\"}]''"
  have held: "uniqueIds (books exampleState)"
    by (simp add: uniqueIds_def hasStringId_def field_def exampleState_def exampleB1_def
          exampleB2_def)
  have src: "importSource examplePlatform None ?doc = Some ?doc"
    by code_simp
  have parsed: "JSON_parse examplePlatform ?doc = Some (JArr exampleDuplicates)"
    by code_simp
  have merged: "books (fst (doImport examplePlatform None ?doc False exampleState))
                  = [exampleB1, exampleB2] @ exampleDuplicates"
    by (simp add: doImport_array [OF src parsed] mergeBooks_result exampleState_def
          exampleDuplicates_def exampleB1_def exampleB2_def exampleB3_def sameValueZero_def
          field_def)
  have replaced: "books (fst (doImport examplePlatform None ?doc True exampleState))
                    = exampleDuplicates"
    by (simp add: doImport_array [OF src parsed])
  have dup: "\<not> uniqueIds ([exampleB1, exampleB2] @ exampleDuplicates)"
            "\<not> uniqueIds exampleDuplicates"
    by (simp_all add: uniqueIds_def field_def exampleDuplicates_def exampleB3_def)
  have held': "uniqueIds (books exampleHeld)"
    by (simp add: uniqueIds_def hasStringId_def field_def exampleHeld_def exampleB1_def)
  let ?f = "exampleEdit\<lparr>formBookId := []\<rparr>"
  let ?s' = "saveBooks examplePlatform (exampleHeld\<lparr>books := books exampleHeld @
      [bookData examplePlatform ?f ''bmlq8z3k1a7f2'' (JStr ''2026-02-17'')]\<rparr>)"
  have run: "handleFormSubmit examplePlatform ''bmlq8z3k1a7f2'' ''2026-02-17'' ?f exampleHeld
               = Inr ?s'"
    by (simp add: handleFormSubmit_add)
  have ids: "map (\<lambda>b. field b ''id'') (books ?s') =
      [Some (JStr ''b1''), Some (JStr ''bmlq8z3k1a7f2''), Some (JStr ''bmlq8z3k1a7f2'')]"
    by (simp add: field_def bookData_def exampleHeld_def exampleB1_def)
  have "\<not> distinct (map (\<lambda>b. field b ''id'') (books ?s'))"
    unfolding ids by simp
  then have twice: "\<not> uniqueIds (books ?s')"
    by (simp only: uniqueIds_def de_Morgan_conj disj_commute [of "\<not> list_all hasStringId (books ?s')"], simp)
  from run ids twice have added:
    "\<exists>s'. handleFormSubmit examplePlatform ''bmlq8z3k1a7f2'' ''2026-02-17'' ?f exampleHeld = Inr s' \<and>
          map (\<lambda>b. field b ''id'') (books s') =
            [Some (JStr ''b1''), Some (JStr ''bmlq8z3k1a7f2''), Some (JStr ''bmlq8z3k1a7f2'')] \<and>
          \<not> uniqueIds (books s')"
    by - (rule exI [of _ ?s'], intro conjI, assumption+)
  from held parsed dup held' added show ?thesis
    unfolding merged replaced by - (intro conjI, assumption+)
qed

section \<open>Cover cache: proofs\<close>

lemma attempt_sent: "length (snd (attempt net extract request url)) \<le> 1"
  by (auto simp: attempt_def split: option.splits sum.splits)

lemma tryStrategies_sent: "length (snd (tryStrategies P net t a)) \<le> 3"
proof -
  obtain u1 s1 where a1: "attempt net (openLibraryCover P) (request1 P t a) JNull = (u1, s1)"
    by (cases "attempt net (openLibraryCover P) (request1 P t a) JNull")
  obtain u2 s2 where a2:
    "(if \<not> truthy (Some u1) then attempt net (openLibraryCover P) (request2 P t) u1
      else (u1, [])) = (u2, s2)"
    by (cases "if \<not> truthy (Some u1) then attempt net (openLibraryCover P) (request2 P t) u1
               else (u1, [])")
  obtain u3 s3 where a3:
    "(if \<not> truthy (Some u2) then attempt net (googleBooksCover P) (request3 P t a) u2
      else (u2, [])) = (u3, s3)"
    by (cases "if \<not> truthy (Some u2) then attempt net (googleBooksCover P) (request3 P t a) u2
               else (u2, [])")
  have l1: "length s1 \<le> 1"
    using attempt_sent [of net "openLibraryCover P" "request1 P t a" JNull] a1 by simp
  have l2: "length s2 \<le> 1"
    using attempt_sent [of net "openLibraryCover P" "request2 P t" u1] a2
    by (auto split: if_splits)
  have l3: "length s3 \<le> 1"
    using attempt_sent [of net "googleBooksCover P" "request3 P t a" u2] a3
    by (auto split: if_splits)
  have "tryStrategies P net t a = (u3, s1 @ s2 @ s3)"
    using a1 a2 a3 by (simp add: tryStrategies_def)
  with l1 l2 l3 show ?thesis by simp
qed

text \<open>The start of a call on an object cache: a hit gives the cached value, a miss a
  pending call that holds the cache as it was read.\<close>

lemma beginFetch_object:
  assumes "book \<noteq> JNull" and "loadCoverCache P store = JObj kvs"
  shows "beginFetch P store book =
           Inr (case map_of kvs (bookKey book) of
                  Some v \<Rightarrow> Cached (Some v)
                | None \<Rightarrow> Pending \<lparr>snapshot = JObj kvs, pendingKey = bookKey book,
                                    pendingTitle = field book ''title'',
                                    pendingAuthor = field book ''author''\<rparr>)"
  using assms
  by (auto simp: beginFetch_def getProp_field bookKey_def cacheHas_def field_def
      split: option.splits)

text \<open>The end of a call that missed on an object cache: whatever the store holds by then,
  the cache saved is the one read at the start with the call's key added.\<close>

lemma completeFetch_object:
  assumes "snapshot p = JObj kvs"
  shows "\<exists>u sent. completeFetch P net p store =
           Inr (Some u, saveCoverCache P (JObj (AList.update (pendingKey p) u kvs)) store, sent) \<and>
           length sent \<le> 3"
proof -
  obtain u sent where r: "tryStrategies P net (pendingTitle p) (pendingAuthor p) = (u, sent)"
    by (cases "tryStrategies P net (pendingTitle p) (pendingAuthor p)")
  with tryStrategies_sent [of P net "pendingTitle p" "pendingAuthor p"]
  have "length sent \<le> 3" by simp
  with r assms show ?thesis
    by (simp add: completeFetch_def setProp_def)
qed

text \<open>An uninterrupted call. A hit: the cached value is returned, the store is untouched,
  nothing is sent.\<close>

lemma fetch_hit:
  assumes "book \<noteq> JNull" and "loadCoverCache P store = JObj kvs"
      and "map_of kvs (bookKey book) = Some v"
  shows "fetchCoverForBook P net store book = Inr (Some v, store, [])"
  using assms(3) by (simp add: fetchCoverForBook_def beginFetch_object [OF assms(1,2)])

text \<open>A miss: at most three requests, then the result is stored under the key and the
  cache is saved.\<close>

lemma fetch_miss:
  assumes "book \<noteq> JNull" and "loadCoverCache P store = JObj kvs"
      and "map_of kvs (bookKey book) = None"
  shows "\<exists>u sent. fetchCoverForBook P net store book =
           Inr (Some u, saveCoverCache P (JObj (AList.update (bookKey book) u kvs)) store, sent) \<and>
           length sent \<le> 3"
  using assms(3)
    completeFetch_object [of "\<lparr>snapshot = JObj kvs, pendingKey = bookKey book,
      pendingTitle = field book ''title'', pendingAuthor = field book ''author''\<rparr>" kvs P net store]
  by (simp add: fetchCoverForBook_def beginFetch_object [OF assms(1,2)])

lemma load_after_save:
  assumes "roundTrips P (JObj kvs)"
  shows "loadCoverCache P (saveCoverCache P (JObj kvs) store) = JObj kvs"
  using assms by (simp add: loadCoverCache_def saveCoverCache_def roundTrips_def)

lemma fetch_twice:
  assumes "book \<noteq> JNull" and "loadCoverCache P store = JObj kvs"
      and first: "fetchCoverForBook P net store book = Inr (Some u, store', sent)"
      and rt: "roundTrips P (JObj (AList.update (bookKey book) u kvs))"
      and same: "book' \<noteq> JNull" "bookKey book' = bookKey book"
  shows "length sent \<le> 3 \<and> fetchCoverForBook P net' store' book' = Inr (Some u, store', [])"
proof (cases "map_of kvs (bookKey book)")
  case None
  from fetch_miss [OF assms(1,2) None, of net] first
  have st: "store' = saveCoverCache P (JObj (AList.update (bookKey book) u kvs)) store"
    and len: "length sent \<le> 3"
    by auto
  have "loadCoverCache P store' = JObj (AList.update (bookKey book) u kvs)"
    unfolding st using rt by (rule load_after_save)
  moreover have "map_of (AList.update (bookKey book) u kvs) (bookKey book') = Some u"
    by (simp add: same(2) update_conv')
  ultimately have "fetchCoverForBook P net' store' book' = Inr (Some u, store', [])"
    using same(1) by (intro fetch_hit)
  with len show ?thesis by simp
next
  case (Some v)
  from fetch_hit [OF assms(1,2) Some, of net] first
  have "u = v" "store' = store" "sent = []"
    by auto
  with fetch_hit [OF same(1) assms(2), of v net'] Some same(2) show ?thesis
    by simp
qed

text \<open>
  What holds of calls that nothing interrupts, the stored cache reading as an object and
  the book not being \<^verbatim>\<open>null\<close>. If the key of the book is in the cache, with a URL or
  \<^verbatim>\<open>null\<close>, the call returns that value, sends no request and leaves the store as it is.
  A call that has completed has sent at most three requests, and a call for the same key
  that starts on the very store it left, \<^verbatim>\<open>JSON.parse\<close> giving back the cache that was
  saved, returns the same value and sends nothing. A cached \<^verbatim>\<open>null\<close> is still in the
  cache, as \<^verbatim>\<open>null\<close>, after the cache has been saved and loaded again.
\<close>

lemma uninterrupted_calls_use_cache:
  assumes "book \<noteq> JNull" and "loadCoverCache P store = JObj kvs"
  shows "(map_of kvs (bookKey book) = Some v \<longrightarrow>
            fetchCoverForBook P net store book = Inr (Some v, store, [])) \<and>
         (fetchCoverForBook P net store book = Inr (Some u, store', sent) \<and>
          roundTrips P (JObj (AList.update (bookKey book) u kvs)) \<and>
          book' \<noteq> JNull \<and> bookKey book' = bookKey book \<longrightarrow>
            length sent \<le> 3 \<and>
            fetchCoverForBook P net' store' book' = Inr (Some u, store', [])) \<and>
         (map_of kvs k = Some JNull \<and> roundTrips P (JObj kvs) \<longrightarrow>
            cacheHas k (loadCoverCache P (saveCoverCache P (JObj kvs) store)) = Inr True \<and>
            field (loadCoverCache P (saveCoverCache P (JObj kvs) store)) k = Some JNull)"
proof (intro conjI impI)
  assume "map_of kvs (bookKey book) = Some v"
  with assms show "fetchCoverForBook P net store book = Inr (Some v, store, [])"
    by (rule fetch_hit)
next
  assume h: "fetchCoverForBook P net store book = Inr (Some u, store', sent) \<and>
             roundTrips P (JObj (AList.update (bookKey book) u kvs)) \<and>
             book' \<noteq> JNull \<and> bookKey book' = bookKey book"
  with fetch_twice [OF assms, of net u store' sent book' net']
  show "length sent \<le> 3" by simp
next
  assume h: "fetchCoverForBook P net store book = Inr (Some u, store', sent) \<and>
             roundTrips P (JObj (AList.update (bookKey book) u kvs)) \<and>
             book' \<noteq> JNull \<and> bookKey book' = bookKey book"
  with fetch_twice [OF assms, of net u store' sent book' net']
  show "fetchCoverForBook P net' store' book' = Inr (Some u, store', [])" by simp
next
  assume "map_of kvs k = Some JNull \<and> roundTrips P (JObj kvs)"
  then show "cacheHas k (loadCoverCache P (saveCoverCache P (JObj kvs) store)) = Inr True"
    by (simp add: load_after_save cacheHas_def)
next
  assume "map_of kvs k = Some JNull \<and> roundTrips P (JObj kvs)"
  then show "field (loadCoverCache P (saveCoverCache P (JObj kvs) store)) k = Some JNull"
    by (simp add: load_after_save field_def)
qed

text \<open>A call that has missed completes: the cache it holds has passed \<^verbatim>\<open>in\<close>, so the
  assignment at line 93 does not throw.\<close>

lemma pending_completes:
  assumes "beginFetch P store book = Inr (Pending p)"
  shows "\<exists>r. completeFetch P net p store' = Inr r"
proof -
  from assms have "\<exists>b. cacheHas (pendingKey p) (snapshot p) = Inr b"
    by (auto simp: beginFetch_def bindE_def Let_def split: sum.splits if_splits)
  then have "(\<exists>kvs. snapshot p = JObj kvs) \<or> (\<exists>xs. snapshot p = JArr xs)"
    by (cases "snapshot p") (simp_all add: cacheHas_def)
  then show ?thesis
    by (cases "tryStrategies P net (pendingTitle p) (pendingAuthor p)")
       (auto simp: completeFetch_def setProp_def)
qed

text \<open>
  Two calls for books with different keys that begin on the same store, neither key being
  in the cache: when the first has completed and then the second, the cache that is
  stored holds the key of the second and not the key of the first, so that a later call
  for the first book misses again.
\<close>

lemma overlapping_calls_erase:
  assumes "bookA \<noteq> JNull" and "bookB \<noteq> JNull" and "loadCoverCache P store = JObj kvs"
      and "map_of kvs (bookKey bookA) = None" and "map_of kvs (bookKey bookB) = None"
      and "bookKey bookA \<noteq> bookKey bookB"
      and "\<forall>u. roundTrips P (JObj (AList.update (bookKey bookB) u kvs))"
  shows "\<exists>kvs'. loadCoverCache P (fst (startedTogether P net store [bookA, bookB])) = JObj kvs' \<and>
           map_of kvs' (bookKey bookA) = None \<and> map_of kvs' (bookKey bookB) \<noteq> None"
proof -
  let ?pA = "\<lparr>snapshot = JObj kvs, pendingKey = bookKey bookA,
      pendingTitle = field bookA ''title'', pendingAuthor = field bookA ''author''\<rparr>"
  let ?pB = "\<lparr>snapshot = JObj kvs, pendingKey = bookKey bookB,
      pendingTitle = field bookB ''title'', pendingAuthor = field bookB ''author''\<rparr>"
  have pend: "pendingOf (map (beginFetch P store) [bookA, bookB]) = [?pA, ?pB]"
    using assms(4,5)
    by (simp add: beginFetch_object [OF assms(1,3)] beginFetch_object [OF assms(2,3)]
        pendingOf_def)
  obtain uA sentA where a: "completeFetch P net ?pA store =
      Inr (Some uA, saveCoverCache P (JObj (AList.update (bookKey bookA) uA kvs)) store, sentA)"
    using completeFetch_object [of ?pA kvs P net store] by auto
  let ?s1 = "saveCoverCache P (JObj (AList.update (bookKey bookA) uA kvs)) store"
  obtain uB sentB where b: "completeFetch P net ?pB ?s1 =
      Inr (Some uB, saveCoverCache P (JObj (AList.update (bookKey bookB) uB kvs)) ?s1, sentB)"
    using completeFetch_object [of ?pB kvs P net ?s1] by auto
  let ?s2 = "saveCoverCache P (JObj (AList.update (bookKey bookB) uB kvs)) ?s1"
  have run: "startedTogether P net store [bookA, bookB] = (?s2, sentA @ sentB)"
    unfolding startedTogether_def pend by (simp add: a b)
  have "loadCoverCache P ?s2 = JObj (AList.update (bookKey bookB) uB kvs)"
    using assms(7) by (simp add: load_after_save)
  moreover have "map_of (AList.update (bookKey bookB) uB kvs) (bookKey bookA) = None"
    using assms(4,6) by (simp add: update_conv')
  moreover have "map_of (AList.update (bookKey bookB) uB kvs) (bookKey bookB) \<noteq> None"
    by (simp add: update_conv')
  ultimately show ?thesis
    unfolding run by simp
qed

text \<open>
  C2. The claim fails on overlapping calls. The cover cache is empty and the cards of two
  books without a cover, Dune by Frank Herbert and Emma by Jane Austen, come into view
  together, so that \<^verbatim>\<open>lazyLoadCovers\<close> starts a call for each before either resumes; the
  network answers every search with a cover. Both calls complete, one request each, and
  the cache that is stored then holds the key of Emma only: the entry that the call for
  Dune had saved is overwritten by the call for Emma. A call for Dune that starts after
  both have completed sends the request for Dune a second time. Had the second call started
  on the store that the first one left, the third would have sent nothing.
\<close>

theorem overlapping_calls_lose_cache_entry:
  "(case startedTogether examplePlatform exampleNet Map.empty [exampleB3, exampleB4] of
      (store, sent) \<Rightarrow> (store COVER_CACHE_KEY, sent))
     = (Some ''{\"Emma|||Jane Austen\":\"https://covers.openlibrary.org/b/olid/OL1M-M.jpg\"}'',
        [''https://openlibrary.org/search.json?title=Dune&author=Frank%20Herbert&limit=1'',
         ''https://openlibrary.org/search.json?title=Emma&author=Jane%20Austen&limit=1'']) \<and>
   (case startedTogether examplePlatform exampleNet Map.empty [exampleB3, exampleB4] of
      (store, sent) \<Rightarrow>
        map_option (\<lambda>(r, store', sent'). (r, sent'))
          (returned (fetchCoverForBook examplePlatform exampleNet store exampleB3)))
     = Some (Some (JStr ''https://covers.openlibrary.org/b/olid/OL1M-M.jpg''),
             [''https://openlibrary.org/search.json?title=Dune&author=Frank%20Herbert&limit=1'']) \<and>
   (case returned (fetchCoverForBook examplePlatform exampleNet Map.empty exampleB3) of
      None \<Rightarrow> None
    | Some (r1, store1, sent1) \<Rightarrow>
        (case returned (fetchCoverForBook examplePlatform exampleNet store1 exampleB4) of
           None \<Rightarrow> None
         | Some (r2, store2, sent2) \<Rightarrow>
             map_option (\<lambda>(r3, store3, sent3). (sent1, sent2, r3, sent3))
               (returned (fetchCoverForBook examplePlatform exampleNet store2 exampleB3))))
     = Some ([''https://openlibrary.org/search.json?title=Dune&author=Frank%20Herbert&limit=1''],
             [''https://openlibrary.org/search.json?title=Emma&author=Jane%20Austen&limit=1''],
             Some (JStr ''https://covers.openlibrary.org/b/olid/OL1M-M.jpg''), [])"
  by code_simp

section \<open>Sorting: proofs\<close>

lemma insertBy_stable:
  assumes "\<forall>y\<in>set ys. \<exists>c. cmp x y = Inr c"
      and "T x \<longrightarrow> (\<forall>y\<in>set ys. T y \<longrightarrow> (\<exists>c. cmp x y = Inr c \<and> notAfter c))"
  shows "\<exists>zs. insertBy cmp x ys = Inr zs \<and> mset zs = add_mset x (mset ys) \<and>
           filter T zs = (if T x then x # filter T ys else filter T ys)"
  using assms
proof (induction ys)
  case Nil
  then show ?case by simp
next
  case (Cons y ys)
  from Cons.prems(1) obtain c where c: "cmp x y = Inr c" by auto
  show ?case
  proof (cases "notAfter c")
    case True
    with c show ?thesis by simp
  next
    case False
    from Cons.prems have "\<forall>y\<in>set ys. \<exists>c. cmp x y = Inr c"
      and "T x \<longrightarrow> (\<forall>y\<in>set ys. T y \<longrightarrow> (\<exists>c. cmp x y = Inr c \<and> notAfter c))"
      by simp_all
    from Cons.IH [OF this] obtain zs where zs: "insertBy cmp x ys = Inr zs"
      "mset zs = add_mset x (mset ys)"
      "filter T zs = (if T x then x # filter T ys else filter T ys)"
      by blast
    from Cons.prems(2) c False have skip: "T x \<Longrightarrow> \<not> T y"
      by auto
    from c False zs skip show ?thesis
      by auto
  qed
qed

text \<open>The sort keeps, in their input order, the elements of any class \<open>T\<close> within which
  the comparator never puts one element after another.\<close>

lemma js_sort_stable:
  assumes "\<forall>x\<in>set xs. \<forall>y\<in>set xs. \<exists>c. cmp x y = Inr c"
      and "\<forall>x\<in>set xs. \<forall>y\<in>set xs. T x \<and> T y \<longrightarrow> (\<exists>c. cmp x y = Inr c \<and> notAfter c)"
  shows "\<exists>ys. js_sort cmp xs = Inr ys \<and> mset ys = mset xs \<and> filter T ys = filter T xs"
  using assms
proof (induction xs)
  case Nil
  then show ?case by simp
next
  case (Cons x xs)
  from Cons.prems have "\<forall>x\<in>set xs. \<forall>y\<in>set xs. \<exists>c. cmp x y = Inr c"
    and "\<forall>x\<in>set xs. \<forall>y\<in>set xs. T x \<and> T y \<longrightarrow> (\<exists>c. cmp x y = Inr c \<and> notAfter c)"
    by simp_all
  from Cons.IH [OF this] obtain ys where ys: "js_sort cmp xs = Inr ys" "mset ys = mset xs"
    "filter T ys = filter T xs"
    by blast
  from ys(2) have set: "set ys = set xs"
    by (rule mset_eq_setD)
  have "\<forall>y\<in>set ys. \<exists>c. cmp x y = Inr c"
    using Cons.prems(1) set by simp
  moreover have "T x \<longrightarrow> (\<forall>y\<in>set ys. T y \<longrightarrow> (\<exists>c. cmp x y = Inr c \<and> notAfter c))"
    using Cons.prems(2) set by simp
  ultimately obtain zs where "insertBy cmp x ys = Inr zs" "mset zs = add_mset x (mset ys)"
    "filter T zs = (if T x then x # filter T ys else filter T ys)"
    using insertBy_stable [of ys cmp x T] by blast
  with ys show ?case by simp
qed

lemma insertBy_insort_key:
  assumes "\<forall>y\<in>set ys. \<exists>c. cmp x y = Inr c \<and> (notAfter c \<longleftrightarrow> f x \<le> f y)"
  shows "insertBy cmp x ys = Inr (insort_key f x ys)"
  using assms by (induction ys) auto

text \<open>Where the comparator orders by a key, the sort is the stable sort by that key.\<close>

lemma js_sort_sort_key:
  assumes "\<forall>x\<in>set xs. \<forall>y\<in>set xs. \<exists>c. cmp x y = Inr c \<and> (notAfter c \<longleftrightarrow> f x \<le> f y)"
  shows "js_sort cmp xs = Inr (sort_key f xs)"
  using assms
proof (induction xs)
  case Nil
  then show ?case by simp
next
  case (Cons x xs)
  then have "js_sort cmp xs = Inr (sort_key f xs)" by simp
  moreover have "insertBy cmp x (sort_key f xs) = Inr (insort_key f x (sort_key f xs))"
    using Cons.prems by (intro insertBy_insort_key) simp
  ultimately show ?case by simp
qed

lemma sortable_object:
  assumes "sortable key b"
  obtains kvs where "b = JObj kvs"
  using assms by (cases b) (simp_all add: sortable_def)

lemma numeric_operand:
  assumes "isNumOrUnset v"
  shows "toNumber P (orElse v (Some (JNum 0))) = Some (case v of Some (JNum n) \<Rightarrow> n | _ \<Rightarrow> 0)"
  using assms
  by (auto simp: isNumOrUnset_def orElse_def toNumber_def split: option.splits json.splits)

lemma string_operand:
  assumes "\<not> truthy v \<or> isStrVal v"
  shows "orElse v (Some (JStr [])) = Some (JStr (case v of Some (JStr s) \<Rightarrow> s | _ \<Rightarrow> []))"
  using assms
  by (cases v rule: truthy.cases) (auto simp: orElse_def isStrVal_def)

text \<open>The comparator on books whose sort key has the type of the data model.\<close>

lemma compareBooks_sortable:
  assumes "sortable key a" and "sortable key b"
  shows "compareBooks P key a b =
           Inr (Some (if key = ''title''
                        then localeCompare P (strKey ''title'' a) (strKey ''title'' b)
                      else if key = ''author''
                        then localeCompare P (strKey ''author'' a) (strKey ''author'' b)
                      else if key = ''rating'' then numKey ''rating'' b - numKey ''rating'' a
                      else if key = ''yearPublished''
                        then numKey ''yearPublished'' b - numKey ''yearPublished'' a
                      else localeCompare P (strKey ''dateAdded'' b) (strKey ''dateAdded'' a)))"
proof -
  from assms obtain ka kb where obj: "a = JObj ka" "b = JObj kb"
    by (auto elim!: sortable_object)
  consider (title) "key = ''title''" | (author) "key = ''author''" | (rating) "key = ''rating''"
    | (year) "key = ''yearPublished''"
    | (date) "key \<noteq> ''title''" "key \<noteq> ''author''" "key \<noteq> ''rating''" "key \<noteq> ''yearPublished''"
    by blast
  then show ?thesis
  proof cases
    case title
    with assms obj show ?thesis
      by (auto simp: compareBooks_def sortable_def isStrVal_iff callLocaleCompare_def
          toString_def strKey_def field_def)
  next
    case author
    with assms obj show ?thesis
      by (auto simp: compareBooks_def sortable_def isStrVal_iff callLocaleCompare_def
          toString_def strKey_def field_def)
  next
    case rating
    with assms obj show ?thesis
      by (simp add: compareBooks_def sortable_def numeric_operand numMinus_def numKey_def
          field_def)
  next
    case year
    with assms obj show ?thesis
      by (simp add: compareBooks_def sortable_def numeric_operand numMinus_def numKey_def
          field_def)
  next
    case date
    with assms obj show ?thesis
      by (simp add: compareBooks_def sortable_def string_operand callLocaleCompare_def
          toString_def strKey_def field_def)
  qed
qed

lemma tied_class:
  assumes "sortable key a" and "sortable key x" and "sortable key y"
      and "key \<noteq> ''rating'' \<and> key \<noteq> ''yearPublished'' \<longrightarrow> tieEquiv P"
      and "tied P key a x" and "tied P key a y"
  shows "compareBooks P key x y = Inr (Some 0)"
proof (cases "key = ''rating'' \<or> key = ''yearPublished''")
  case True
  with assms(5,6) show ?thesis
    unfolding tied_def compareBooks_sortable [OF assms(1,2)] compareBooks_sortable [OF assms(1,3)]
      compareBooks_sortable [OF assms(2,3)]
    by auto
next
  case False
  with assms(4) have sym: "\<And>s t. localeCompare P s t = 0 \<Longrightarrow> localeCompare P t s = 0"
    and trans: "\<And>s t u. localeCompare P s t = 0 \<Longrightarrow> localeCompare P t u = 0
                  \<Longrightarrow> localeCompare P s u = 0"
    unfolding tieEquiv_def by blast+
  from False assms(5,6) show ?thesis
    unfolding tied_def compareBooks_sortable [OF assms(1,2)] compareBooks_sortable [OF assms(1,3)]
      compareBooks_sortable [OF assms(2,3)]
    by (auto split: if_splits intro: sym trans)
qed

lemma unrated_then_rated:
  assumes "unrated a" and "rated b"
  shows "numKey ''rating'' a < numKey ''rating'' b"
  using assms by (auto simp: unrated_def rated_def numKey_def split: option.splits json.splits)

text \<open>
  C6. Let every book of the list have a sort key of the type the data model gives it, and,
  for the keys compared by \<^verbatim>\<open>localeCompare\<close>, let ties of \<^verbatim>\<open>localeCompare\<close> be an
  equivalence. Then the sort returns a rearrangement of the list in which, for every book
  \<open>a\<close> of the list, the books that tie with \<open>a\<close> under the key stand in their input order.
  Under the key \<^verbatim>\<open>rating\<close> the result is in descending order of \<^verbatim>\<open>rating || 0\<close>, no
  unrated book (rating null or missing) stands before a book rated 1 to 5, and the books
  of each rating stand in their input order.
\<close>

theorem sort_is_stable_and_unrated_last:
  assumes "\<forall>b\<in>set xs. sortable key b"
      and "key \<noteq> ''rating'' \<and> key \<noteq> ''yearPublished'' \<longrightarrow> tieEquiv P"
  shows "\<exists>ys. sortBooks P key xs = Inr ys \<and> mset ys = mset xs \<and>
           (\<forall>a\<in>set xs. filter (tied P key a) ys = filter (tied P key a) xs) \<and>
           (key = ''rating'' \<longrightarrow>
              sorted_wrt (\<lambda>a b. numKey ''rating'' b \<le> numKey ''rating'' a) ys \<and>
              sorted_wrt (\<lambda>a b. \<not> (unrated a \<and> rated b)) ys \<and>
              (\<forall>r. filter (\<lambda>b. numKey ''rating'' b = r) ys
                     = filter (\<lambda>b. numKey ''rating'' b = r) xs))"
proof -
  have total: "\<forall>x\<in>set xs. \<forall>y\<in>set xs. \<exists>c. compareBooks P key x y = Inr c"
    using assms(1) by (simp add: compareBooks_sortable)
  from js_sort_stable [OF total, of "\<lambda>b. False"]
  obtain ys where ys: "sortBooks P key xs = Inr ys" "mset ys = mset xs"
    by (auto simp: sortBooks_def)
  have ties: "filter (tied P key a) ys = filter (tied P key a) xs" if a: "a \<in> set xs" for a
  proof -
    have "\<forall>x\<in>set xs. \<forall>y\<in>set xs. tied P key a x \<and> tied P key a y \<longrightarrow>
            (\<exists>c. compareBooks P key x y = Inr c \<and> notAfter c)"
      using tied_class [OF _ _ _ assms(2), of a] assms(1) a
      by (auto simp: notAfter_def)
    from js_sort_stable [OF total this] ys(1) show ?thesis
      by (simp add: sortBooks_def)
  qed
  have rating: "sorted_wrt (\<lambda>a b. numKey ''rating'' b \<le> numKey ''rating'' a) ys \<and>
                sorted_wrt (\<lambda>a b. \<not> (unrated a \<and> rated b)) ys \<and>
                (\<forall>r. filter (\<lambda>b. numKey ''rating'' b = r) ys
                       = filter (\<lambda>b. numKey ''rating'' b = r) xs)"
    if key: "key = ''rating''"
  proof -
    let ?f = "\<lambda>b. - numKey ''rating'' b"
    have "js_sort (compareBooks P ''rating'') xs = Inr (sort_key ?f xs)"
      using assms(1) key by (intro js_sort_sort_key) (simp add: compareBooks_sortable notAfter_def)
    with ys(1) key have eq: "ys = sort_key ?f xs"
      by (simp add: sortBooks_def)
    have desc: "sorted_wrt (\<lambda>a b. numKey ''rating'' b \<le> numKey ''rating'' a) ys"
      using sorted_sort_key [of ?f xs] unfolding eq by (simp add: sorted_map)
    have last: "sorted_wrt (\<lambda>a b. \<not> (unrated a \<and> rated b)) ys"
      using desc by (rule sorted_wrt_mono_rel [rotated]) (auto dest: unrated_then_rated)
    have "filter (\<lambda>b. numKey ''rating'' b = r) ys = filter (\<lambda>b. numKey ''rating'' b = r) xs" for r
      using sort_key_stable [of ?f "- r" xs] unfolding eq by simp
    with desc last show ?thesis by simp
  qed
  from ys ties rating show ?thesis by blast
qed

lemma compareCodes_zero: "compareCodes xs ys = 0 \<longleftrightarrow> xs = ys"
  by (induction xs ys rule: compareCodes.induct) auto

lemma tieEquiv_asciiPlatform: "tieEquiv (asciiPlatform docs)"
  by (simp add: tieEquiv_def asciiPlatform_def compareCodes_zero inj_of_char)

theorem sort_is_stable_and_unrated_last_witness:
  "list_all (sortable ''rating'') exampleShelf \<and>
   sortBooks examplePlatform ''rating'' exampleShelf
     = Inr [shelfBook ''d'' ''Beloved'' (JNum 5), shelfBook ''b'' ''Dune'' (JNum 3),
            shelfBook ''e'' ''Dune'' (JNum 3), shelfBook ''a'' ''Emma'' JNull,
            shelfBook ''c'' ''Ulysses'' JNull] \<and>
   sorted_wrt (\<lambda>a b. \<not> (unrated a \<and> rated b))
     [shelfBook ''d'' ''Beloved'' (JNum 5), shelfBook ''b'' ''Dune'' (JNum 3),
      shelfBook ''e'' ''Dune'' (JNum 3), shelfBook ''a'' ''Emma'' JNull,
      shelfBook ''c'' ''Ulysses'' JNull] \<and>
   list_all (sortable ''title'') exampleShelf \<and>
   tieEquiv examplePlatform \<and>
   sortBooks examplePlatform ''title'' exampleShelf
     = Inr [shelfBook ''d'' ''Beloved'' (JNum 5), shelfBook ''b'' ''Dune'' (JNum 3),
            shelfBook ''e'' ''Dune'' (JNum 3), shelfBook ''a'' ''Emma'' JNull,
            shelfBook ''c'' ''Ulysses'' JNull] \<and>
   filter (tied examplePlatform ''title'' (shelfBook ''b'' ''Dune'' (JNum 3)))
     [shelfBook ''d'' ''Beloved'' (JNum 5), shelfBook ''b'' ''Dune'' (JNum 3),
      shelfBook ''e'' ''Dune'' (JNum 3), shelfBook ''a'' ''Emma'' JNull,
      shelfBook ''c'' ''Ulysses'' JNull]
     = filter (tied examplePlatform ''title'' (shelfBook ''b'' ''Dune'' (JNum 3))) exampleShelf"
proof -
  let ?sorted = "[shelfBook ''d'' ''Beloved'' (JNum 5), shelfBook ''b'' ''Dune'' (JNum 3),
      shelfBook ''e'' ''Dune'' (JNum 3), shelfBook ''a'' ''Emma'' JNull,
      shelfBook ''c'' ''Ulysses'' JNull]"
  have byRating: "list_all (sortable ''rating'') exampleShelf"
    by (simp add: exampleShelf_def shelfBook_def sortable_def isNumOrUnset_def)
  have byTitle: "list_all (sortable ''title'') exampleShelf"
    by (simp add: exampleShelf_def shelfBook_def sortable_def isStrVal_def)
  have ties: "tieEquiv examplePlatform"
    unfolding examplePlatform_def by (rule tieEquiv_asciiPlatform)
  have runRating: "sortBooks examplePlatform ''rating'' exampleShelf = Inr ?sorted"
    by code_simp
  have runTitle: "sortBooks examplePlatform ''title'' exampleShelf = Inr ?sorted"
    by code_simp
  from sort_is_stable_and_unrated_last [of exampleShelf "''rating''" examplePlatform] byRating
  obtain ys where r: "sortBooks examplePlatform ''rating'' exampleShelf = Inr ys"
    "sorted_wrt (\<lambda>a b. \<not> (unrated a \<and> rated b)) ys"
    by (auto simp: list_all_iff)
  from r runRating have last: "sorted_wrt (\<lambda>a b. \<not> (unrated a \<and> rated b)) ?sorted"
    by simp
  have member: "shelfBook ''b'' ''Dune'' (JNum 3) \<in> set exampleShelf"
    by (simp add: exampleShelf_def)
  from sort_is_stable_and_unrated_last [of exampleShelf "''title''" examplePlatform] byTitle ties
  obtain zs where t: "sortBooks examplePlatform ''title'' exampleShelf = Inr zs"
    "\<forall>a\<in>set exampleShelf. filter (tied examplePlatform ''title'' a) zs
        = filter (tied examplePlatform ''title'' a) exampleShelf"
    by (auto simp: list_all_iff)
  from t runTitle member have stable:
    "filter (tied examplePlatform ''title'' (shelfBook ''b'' ''Dune'' (JNum 3))) ?sorted
       = filter (tied examplePlatform ''title'' (shelfBook ''b'' ''Dune'' (JNum 3))) exampleShelf"
    by simp
  from byRating runRating last byTitle ties runTitle stable show ?thesis
    by - (intro conjI, assumption+)
qed

end
